theory Spec2Isabelle
  imports Main "HOL-Library.Sublist"
begin

section \<open>JavaScript exceptions and asynchronous computations\<close>

text \<open>
  An exception is a value carrying its \<open>message\<close>. An \<open>async\<close> method is a function from
  the process state to an outcome and the next state: \<open>Inl e\<close> is a rejected promise (the
  \<open>await\<close> of the caller throws \<open>e\<close>), \<open>Inr x\<close> a promise fulfilled with \<open>x\<close>.
  \<open>io_bind\<close> is \<open>await\<close> followed by the rest of the body, \<open>io_catch\<close> is
  \<open>try { ... } catch (error) { ... }\<close>.
\<close>

datatype js_error = Error string | TypeError string | ReferenceError string | SyntaxError string

fun message :: "js_error \<Rightarrow> string" where
  "message (Error m) = m"
| "message (TypeError m) = m"
| "message (ReferenceError m) = m"
| "message (SyntaxError m) = m"

type_synonym ('w, 'a) io = "'w \<Rightarrow> (js_error + 'a) \<times> 'w"

definition io_return :: "'a \<Rightarrow> ('w, 'a) io" where
  "io_return x = (\<lambda>w. (Inr x, w))"

definition io_throw :: "js_error \<Rightarrow> ('w, 'a) io" where
  "io_throw e = (\<lambda>w. (Inl e, w))"

definition io_bind :: "('w, 'a) io \<Rightarrow> ('a \<Rightarrow> ('w, 'b) io) \<Rightarrow> ('w, 'b) io" where
  "io_bind m f = (\<lambda>w. case m w of (Inl e, w') \<Rightarrow> (Inl e, w') | (Inr x, w') \<Rightarrow> f x w')"

definition io_catch :: "('w, 'a) io \<Rightarrow> (js_error \<Rightarrow> ('w, 'a) io) \<Rightarrow> ('w, 'a) io" where
  "io_catch m h = (\<lambda>w. case m w of (Inl e, w') \<Rightarrow> h e w' | (Inr x, w') \<Rightarrow> (Inr x, w'))"

definition io_get :: "('w, 'w) io" where
  "io_get = (\<lambda>w. (Inr w, w))"

definition io_modify :: "('w \<Rightarrow> 'w) \<Rightarrow> ('w, unit) io" where
  "io_modify f = (\<lambda>w. (Inr (), f w))"

section \<open>Data model\<close>

text \<open>
  A cookie as \<open>setCookiesOnClient\<close> reads it. \<open>domain\<close> and \<open>sameSite\<close> are optional
  (\<open>None\<close> is \<open>undefined\<close>) because the code tests them for truthiness.
\<close>

record cookie =
  key :: string
  cvalue :: string
  domain :: "string option"
  path :: string
  secure :: bool
  httpOnly :: bool
  sameSite :: "string option"

text \<open>The argument of \<open>getClient\<close>; \<open>cred_cookies\<close> is the optional caller-supplied jar.\<close>

record credentials =
  username :: string
  password :: string
  email :: "string option"
  twoFactorSecret :: "string option"
  cred_cookies :: "cookie list option"

text \<open>A document of the \<open>cookies\<close> collection and one of the \<open>twitter_cache\<close> collection.\<close>

record session_doc =
  doc_cookies :: "cookie list"
  updatedAt :: int

record 'p cache_entry =
  data :: "'p option"
  timestamp :: int
  expiresAt :: int

text \<open>
  What the process does to its collaborators, in order. The trace is only written, never
  read: it records that a Scraper was constructed, that a method of the Scraper at an
  address was invoked (for the login-state probe, also whether it returned \<open>true\<close>), that
  a document of the \<open>cookies\<close> collection was upserted, and that \<open>getCachedData\<close> or
  \<open>setCachedData\<close> was entered for a composite key.
\<close>

datatype event =
    NewScraper nat
  | Probe nat bool
  | SetCookies nat "string list"
  | Login nat string
  | GetCookies nat
  | Search nat
  | SessionUpsert string
  | CacheGet string
  | CacheSet string

text \<open>
  The process state. \<open>instances\<close> and \<open>cookies\<close> are the two static maps of
  \<open>TwitterClient\<close>; a Scraper object is an address into \<open>scrapers\<close>, so that the registry and
  the caller share one object. \<open>cookieColl\<close> and \<open>cacheColl\<close> are the two MongoDB
  collections. \<open>faults\<close> is the schedule of the database: every round trip takes the head,
  \<open>Some m\<close> makes it throw \<open>Error m\<close>; an empty schedule means no further failure.
  \<open>clock\<close> gives the successive readings of \<open>Date.now()\<close>, \<open>ticks\<close> counts them.
\<close>

record ('s, 'p) world =
  instances :: "string \<rightharpoonup> nat"
  cookies :: "string \<rightharpoonup> cookie list"
  scrapers :: "'s list"
  cookieColl :: "string \<rightharpoonup> session_doc"
  cacheColl :: "string \<rightharpoonup> 'p cache_entry"
  faults :: "string option list"
  clock :: "nat \<Rightarrow> int"
  ticks :: nat
  trace :: "event list"

text \<open>
  The result of \<open>fetchSearchTweets\<close> and the time its promise takes: \<open>Settles d r\<close>
  settles \<open>d\<close> milliseconds after the call, rejected (\<open>Inl\<close>) or fulfilled (\<open>Inr\<close>, with
  \<open>None\<close> for \<open>undefined\<close>); \<open>Never\<close> stays pending.
\<close>

record 't search_result =
  tweets :: "'t list option"
  nextCursor :: "string option"
  previousCursor :: "string option"

datatype 't settle = Settles nat "js_error + 't search_result option" | Never

text \<open>
  The Scraper of \<open>agent-twitter-client\<close> is an external collaborator: its methods are
  parameters. Each takes the state of the Scraper object and returns its outcome and the
  object's next state.
\<close>

record ('s, 't) platform =
  newScraper :: 's
  isLoggedIn :: "'s \<Rightarrow> (js_error + bool) \<times> 's"
  setCookies :: "string list \<Rightarrow> 's \<Rightarrow> (js_error + unit) \<times> 's"
  login :: "string \<Rightarrow> string \<Rightarrow> string option \<Rightarrow> string option \<Rightarrow> 's \<Rightarrow> (js_error + unit) \<times> 's"
  getCookies :: "'s \<Rightarrow> (js_error + cookie list) \<times> 's"
  fetchSearchTweets :: "string \<Rightarrow> nat \<Rightarrow> nat \<Rightarrow> string option \<Rightarrow> 's \<Rightarrow> 't settle \<times> 's"

section \<open>Primitive effects\<close>

text \<open>\<open>new Scraper()\<close>: allocates the next address.\<close>

definition construct :: "('s, 't) platform \<Rightarrow> (('s, 'p) world, nat) io" where
  "construct plat = (\<lambda>w. (Inr (length (scrapers w)),
     w\<lparr>scrapers := scrapers w @ [newScraper plat],
       trace := trace w @ [NewScraper (length (scrapers w))]\<rparr>))"

text \<open>
  \<open>client.method(...)\<close> on the object at address \<open>client\<close>. A value that is not a Scraper
  has no such method, and the call throws a TypeError.
\<close>

definition invoke ::
  "nat \<Rightarrow> ((js_error + 'a) \<Rightarrow> event) \<Rightarrow> ('s \<Rightarrow> (js_error + 'a) \<times> 's)
     \<Rightarrow> (('s, 'p) world, 'a) io" where
  "invoke client ev method = (\<lambda>w.
     if client < length (scrapers w) then
       (case method (scrapers w ! client) of
          (r, s') \<Rightarrow> (r, w\<lparr>scrapers := (scrapers w)[client := s'], trace := trace w @ [ev r]\<rparr>))
     else (Inl (TypeError ''client method is not a function''), w))"

text \<open>\<open>await client.isLoggedIn()\<close>, the login-state probe.\<close>

definition probe :: "('s, 't) platform \<Rightarrow> nat \<Rightarrow> (('s, 'p) world, bool) io" where
  "probe plat client = invoke client (\<lambda>r. Probe client (r = Inr True)) (isLoggedIn plat)"

text \<open>One round trip to MongoDB (connecting, or one collection operation).\<close>

definition roundTrip :: "(('s, 'p) world, unit) io" where
  "roundTrip = (\<lambda>w. case faults w of
       [] \<Rightarrow> (Inr (), w)
     | None # fs \<Rightarrow> (Inr (), w\<lparr>faults := fs\<rparr>)
     | Some m # fs \<Rightarrow> (Inl (Error m), w\<lparr>faults := fs\<rparr>))"

text \<open>\<open>Date.now()\<close> and \<open>new Date()\<close>.\<close>

definition dateNow :: "(('s, 'p) world, int) io" where
  "dateNow = (\<lambda>w. (Inr (clock w (ticks w)), w\<lparr>ticks := Suc (ticks w)\<rparr>))"

text \<open>
  \<open>initMongoClient\<close> connects when it has to and rethrows the failure of the connection.
\<close>

definition initMongoClient :: "(('s, 'p) world, unit) io" where
  "initMongoClient = io_catch roundTrip (\<lambda>error. io_throw error)"

section \<open>Applying a jar: \<open>setCookiesOnClient\<close>\<close>

text \<open>\<open>s.includes(t)\<close>: \<open>t\<close> occurs in \<open>s\<close> as a contiguous substring.\<close>

fun js_includes :: "string \<Rightarrow> string \<Rightarrow> bool" where
  "js_includes [] t = (t = [])"
| "js_includes (c # cs) t = (prefix t (c # cs) \<or> js_includes cs t)"

text \<open>
  Lines 197 to 201 of the client: the domain the cookie string carries. An absent or
  empty domain is falsy and stays as it is.
\<close>

definition rewriteDomain :: "string option \<Rightarrow> string option" where
  "rewriteDomain d = (case d of
       None \<Rightarrow> None
     | Some dm \<Rightarrow> if dm \<noteq> [] \<and> js_includes dm ''x.com'' then Some ''.twitter.com'' else Some dm)"

text \<open>The template literal of line 203; an undefined domain prints as \<open>undefined\<close>.\<close>

definition cookieString :: "cookie \<Rightarrow> string" where
  "cookieString c =
     key c @ ''='' @ cvalue c
     @ ''; Domain='' @ (case rewriteDomain (domain c) of None \<Rightarrow> ''undefined'' | Some d \<Rightarrow> d)
     @ ''; Path='' @ path c
     @ (if secure c then ''; Secure'' else '''')
     @ (if httpOnly c then ''; HttpOnly'' else '''')
     @ ''; SameSite='' @ (case sameSite c of None \<Rightarrow> ''Lax'' | Some s \<Rightarrow> if s = [] then ''Lax'' else s)"

definition setCookiesOnClient ::
  "('s, 't) platform \<Rightarrow> nat \<Rightarrow> cookie list \<Rightarrow> (('s, 'p) world, unit) io" where
  "setCookiesOnClient plat client jar =
     (let cookieStrings = map cookieString jar
      in invoke client (\<lambda>_. SetCookies client cookieStrings) (setCookies plat cookieStrings))"

text \<open>The jar with the rewrite of lines 197 to 201 applied to every cookie.\<close>

definition rewriteJar :: "cookie list \<Rightarrow> cookie list" where
  "rewriteJar jar = map (\<lambda>c. c\<lparr>domain := rewriteDomain (domain c)\<rparr>) jar"

section \<open>The Session Store and the resolver tiers\<close>

text \<open>
  \<open>saveCookies\<close>: connect, then upsert \<open>{cookies, updatedAt: new Date()}\<close> under the
  username (the date is read while the argument is built, before the update runs); any
  failure is rethrown.
\<close>

definition saveCookies :: "string \<Rightarrow> cookie list \<Rightarrow> (('s, 'p) world, unit) io" where
  "saveCookies user jar =
     io_catch
       (io_bind initMongoClient (\<lambda>_.
        io_bind dateNow (\<lambda>now.
        io_bind roundTrip (\<lambda>_.
        io_modify (\<lambda>w. w\<lparr>cookieColl := (cookieColl w)(user \<mapsto> \<lparr>doc_cookies = jar, updatedAt = now\<rparr>),
                          trace := trace w @ [SessionUpsert user]\<rparr>)))))
       (\<lambda>error. io_throw error)"

text \<open>\<open>collection.findOne({ _id: username })\<close> on the \<open>cookies\<close> collection.\<close>

definition findSession :: "string \<Rightarrow> (('s, 'p) world, session_doc option) io" where
  "findSession user = io_bind roundTrip (\<lambda>_. io_bind io_get (\<lambda>w. io_return (cookieColl w user)))"

definition saveClientAndReturn :: "string \<Rightarrow> nat \<Rightarrow> (('s, 'p) world, nat option) io" where
  "saveClientAndReturn user client =
     io_bind (io_modify (\<lambda>w. w\<lparr>instances := (instances w)(user \<mapsto> client)\<rparr>)) (\<lambda>_.
     io_return (Some client))"

definition tryExistingClient :: "('s, 't) platform \<Rightarrow> string \<Rightarrow> (('s, 'p) world, bool) io" where
  "tryExistingClient plat user =
     io_bind io_get (\<lambda>w.
       case instances w user of
         None \<Rightarrow> io_return False
       | Some client \<Rightarrow>
           io_catch
             (io_bind (probe plat client) (\<lambda>ok.
                if ok then io_return True else io_return False))
             (\<lambda>error. io_return False))"

definition tryPassedCookies ::
  "('s, 't) platform \<Rightarrow> nat \<Rightarrow> string \<Rightarrow> cookie list \<Rightarrow> (('s, 'p) world, bool) io" where
  "tryPassedCookies plat client user jar =
     io_catch
       (io_bind (setCookiesOnClient plat client jar) (\<lambda>_.
        io_bind (probe plat client) (\<lambda>ok.
          if ok then
            io_bind (saveCookies user jar) (\<lambda>_.
            io_bind (io_modify (\<lambda>w. w\<lparr>cookies := (cookies w)(user \<mapsto> jar)\<rparr>)) (\<lambda>_.
            io_return True))
          else io_return False)))
       (\<lambda>error. io_return False)"

definition tryInMemoryCookies ::
  "('s, 't) platform \<Rightarrow> nat \<Rightarrow> string \<Rightarrow> (('s, 'p) world, bool) io" where
  "tryInMemoryCookies plat client user =
     io_bind io_get (\<lambda>w.
       case cookies w user of
         None \<Rightarrow> io_return False
       | Some jar \<Rightarrow>
           io_catch
             (io_bind (setCookiesOnClient plat client jar) (\<lambda>_.
              io_bind (probe plat client) (\<lambda>ok.
                if ok then io_return True else io_return False)))
             (\<lambda>error. io_return False))"

definition tryMongoCookies ::
  "('s, 't) platform \<Rightarrow> nat \<Rightarrow> string \<Rightarrow> (('s, 'p) world, bool) io" where
  "tryMongoCookies plat client user =
     io_catch
       (io_bind initMongoClient (\<lambda>_.
        io_bind (findSession user) (\<lambda>document.
          case document of
            None \<Rightarrow> io_return False
          | Some doc \<Rightarrow>
              io_bind (setCookiesOnClient plat client (doc_cookies doc)) (\<lambda>_.
              io_bind (probe plat client) (\<lambda>ok.
                if ok then
                  io_bind (io_modify (\<lambda>w. w\<lparr>cookies := (cookies w)(user \<mapsto> doc_cookies doc)\<rparr>)) (\<lambda>_.
                  io_return True)
                else io_return False)))))
       (\<lambda>error. io_return False)"

text \<open>\<open>tryFreshLogin\<close> is the one tier that rethrows (line 172).\<close>

definition tryFreshLogin ::
  "('s, 't) platform \<Rightarrow> nat \<Rightarrow> string \<Rightarrow> string \<Rightarrow> string option \<Rightarrow> string option
     \<Rightarrow> (('s, 'p) world, bool) io" where
  "tryFreshLogin plat client user pass mail secret =
     io_catch
       (io_bind (invoke client (\<lambda>_. Login client user) (login plat user pass mail secret)) (\<lambda>_.
        io_bind (probe plat client) (\<lambda>ok.
          if ok then
            io_bind (invoke client (\<lambda>_. GetCookies client) (getCookies plat)) (\<lambda>newCookies.
            io_bind (saveCookies user newCookies) (\<lambda>_.
            io_bind (io_modify (\<lambda>w. w\<lparr>cookies := (cookies w)(user \<mapsto> newCookies)\<rparr>)) (\<lambda>_.
            io_return True)))
          else io_return False)))
       (\<lambda>error. io_throw error)"

section \<open>The failure reason of \<open>getClient\<close>\<close>

text \<open>
  The values \<open>JSON.parse\<close> returns. Numbers are integers; an object is the list of its own
  properties, each name once.
\<close>

datatype json = JNull | JBool bool | JNum int | JStr string | JArr "json list" | JObj "(string \<times> json) list"

text \<open>
  Built-ins of the language, taken as parameters: \<open>JSON.parse\<close> (\<open>None\<close> when it throws
  a SyntaxError), the string conversion of a template literal and the comparison
  \<open>v > 0\<close>. The two conversions are consulted only for the values on which they are
  involved (numbers, arrays and objects to strings; strings, arrays and objects to
  numbers); the model fixes the others below.
\<close>

record js_builtins =
  JSON_parse :: "string \<Rightarrow> json option"
  ToString :: "json \<Rightarrow> js_error + string"
  GreaterThanZero :: "json \<Rightarrow> js_error + bool"

text \<open>
  \<open>v.errors\<close> and \<open>v.message\<close>: reading a property of \<open>null\<close> or \<open>undefined\<close> throws,
  an object gives its own property, anything else \<open>undefined\<close> (\<open>None\<close>).
\<close>

fun member :: "string \<Rightarrow> json option \<Rightarrow> js_error + json option" where
  "member name None = Inl (TypeError ''Cannot read properties of undefined'')"
| "member name (Some JNull) = Inl (TypeError ''Cannot read properties of null'')"
| "member name (Some (JObj kvs)) = Inr (map_of kvs name)"
| "member name (Some v) = Inr None"

fun truthy :: "json option \<Rightarrow> bool" where
  "truthy None = False"
| "truthy (Some JNull) = False"
| "truthy (Some (JBool b)) = b"
| "truthy (Some (JNum n)) = (n \<noteq> 0)"
| "truthy (Some (JStr s)) = (s \<noteq> [])"
| "truthy (Some (JArr xs)) = True"
| "truthy (Some (JObj kvs)) = True"

text \<open>\<open>v.length\<close>.\<close>

fun lengthOf :: "json option \<Rightarrow> js_error + json option" where
  "lengthOf None = Inl (TypeError ''Cannot read properties of undefined'')"
| "lengthOf (Some JNull) = Inl (TypeError ''Cannot read properties of null'')"
| "lengthOf (Some (JArr xs)) = Inr (Some (JNum (int (length xs))))"
| "lengthOf (Some (JStr s)) = Inr (Some (JNum (int (length s))))"
| "lengthOf (Some (JObj kvs)) = Inr (map_of kvs ''length'')"
| "lengthOf (Some v) = Inr None"

text \<open>\<open>v > 0\<close>.\<close>

fun gtZero :: "js_builtins \<Rightarrow> json option \<Rightarrow> js_error + bool" where
  "gtZero js None = Inr False"
| "gtZero js (Some JNull) = Inr False"
| "gtZero js (Some (JBool b)) = Inr b"
| "gtZero js (Some (JNum n)) = Inr (0 < n)"
| "gtZero js (Some v) = GreaterThanZero js v"

text \<open>\<open>v[0]\<close>.\<close>

fun index0 :: "json option \<Rightarrow> js_error + json option" where
  "index0 None = Inl (TypeError ''Cannot read properties of undefined'')"
| "index0 (Some JNull) = Inl (TypeError ''Cannot read properties of null'')"
| "index0 (Some (JArr xs)) = Inr (case xs of [] \<Rightarrow> None | x # _ \<Rightarrow> Some x)"
| "index0 (Some (JStr s)) = Inr (case s of [] \<Rightarrow> None | c # _ \<Rightarrow> Some (JStr [c]))"
| "index0 (Some (JObj kvs)) = Inr (map_of kvs ''0'')"
| "index0 (Some v) = Inr None"

text \<open>The string a template literal makes of a value.\<close>

fun render :: "js_builtins \<Rightarrow> json option \<Rightarrow> js_error + string" where
  "render js None = Inr ''undefined''"
| "render js (Some JNull) = Inr ''null''"
| "render js (Some (JBool b)) = Inr (if b then ''true'' else ''false'')"
| "render js (Some (JStr s)) = Inr s"
| "render js (Some v) = ToString js v"

text \<open>
  The body of the inner \<open>try\<close> (lines 77 to 82): the value assigned to \<open>errorMessage\<close>,
  or the exception that leaves the block.
\<close>

definition parseErrorMessage :: "js_builtins \<Rightarrow> string \<Rightarrow> js_error + json option" where
  "parseErrorMessage js msg =
     (case JSON_parse js msg of
        None \<Rightarrow> Inl (SyntaxError ''Unexpected token'')
      | Some errorObj \<Rightarrow>
          (case member ''errors'' (Some errorObj) of
             Inl e \<Rightarrow> Inl e
           | Inr errors \<Rightarrow>
               (case (if truthy errors
                      then (case lengthOf errors of Inl e \<Rightarrow> Inl e | Inr n \<Rightarrow> gtZero js n)
                      else Inr False) of
                  Inl e \<Rightarrow> Inl e
                | Inr True \<Rightarrow>
                    (case index0 errors of Inl e \<Rightarrow> Inl e | Inr first \<Rightarrow> member ''message'' first)
                | Inr False \<Rightarrow> Inr (Some (JStr msg)))))"

text \<open>Lines 73 to 87: the value of \<open>errorMessage\<close> when the cascade is exhausted.\<close>

definition errorMessageOf :: "js_builtins \<Rightarrow> js_error option \<Rightarrow> json option" where
  "errorMessageOf js lastError =
     (case lastError of
        None \<Rightarrow> Some (JStr ''All authentication methods failed'')
      | Some err \<Rightarrow>
          if message err = [] then Some (JStr ''All authentication methods failed'')
          else (case parseErrorMessage js (message err) of
                  Inl _ \<Rightarrow> Some (JStr (message err))
                | Inr v \<Rightarrow> v))"

text \<open>Line 88: \<open>throw new Error(`Failed to authenticate: ${errorMessage}`)\<close>.\<close>

definition authenticationFailure :: "js_builtins \<Rightarrow> js_error option \<Rightarrow> js_error" where
  "authenticationFailure js lastError =
     (case render js (errorMessageOf js lastError) of
        Inl e \<Rightarrow> e
      | Inr text \<Rightarrow> Error (''Failed to authenticate: '' @ text))"

section \<open>The resolver: \<open>getClient\<close>\<close>

definition getClient ::
  "('s, 't) platform \<Rightarrow> js_builtins \<Rightarrow> credentials \<Rightarrow> (('s, 'p) world, nat option) io" where
  "getClient plat js credentials =
     (let user = username credentials in
      io_catch
        (io_bind (tryExistingClient plat user) (\<lambda>existing.
           if existing then io_bind io_get (\<lambda>w. io_return (instances w user))
           else
           io_bind (construct plat) (\<lambda>client.
           io_bind (case cred_cookies credentials of
                      None \<Rightarrow> io_return False
                    | Some jar \<Rightarrow> tryPassedCookies plat client user jar) (\<lambda>passed.
           if passed then saveClientAndReturn user client
           else
           io_bind (tryInMemoryCookies plat client user) (\<lambda>inMemory.
           if inMemory then saveClientAndReturn user client
           else
           io_bind (tryMongoCookies plat client user) (\<lambda>persisted.
           if persisted then saveClientAndReturn user client
           else
           io_bind (io_catch
                      (io_bind (tryFreshLogin plat client user (password credentials)
                                  (email credentials) (twoFactorSecret credentials))
                         (\<lambda>fresh. io_return (if fresh then Inr () else Inl None)))
                      (\<lambda>loginError. io_return (Inl (Some loginError)))) (\<lambda>attempt.
           case attempt of
             Inr _ \<Rightarrow> saveClientAndReturn user client
           | Inl lastError \<Rightarrow> io_throw (authenticationFailure js lastError))))))))
        (\<lambda>error. io_throw error))"

section \<open>The Cache Store: \<open>getCachedData\<close> and \<open>setCachedData\<close>\<close>

text \<open>\<open>collection.findOne({ _id: id })\<close> on the \<open>twitter_cache\<close> collection.\<close>

definition findCache :: "string \<Rightarrow> (('s, 'p) world, 'p cache_entry option) io" where
  "findCache ident = io_bind roundTrip (\<lambda>_. io_bind io_get (\<lambda>w. io_return (cacheColl w ident)))"

text \<open>The composite key \<open>`${type}_${key}`\<close>.\<close>

definition cacheId :: "string \<Rightarrow> string \<Rightarrow> string" where
  "cacheId k ty = ty @ ''_'' @ k"

text \<open>
  The third parameter defaults to twelve hours when it is not passed. The result \<open>None\<close>
  is \<open>null\<close>; a payload is itself \<open>null\<close> or a value.
\<close>

definition getCachedData ::
  "string \<Rightarrow> string \<Rightarrow> int option \<Rightarrow> (('s, 'p) world, 'p option) io" where
  "getCachedData k ty duration =
     (let cacheDurationMs = (case duration of None \<Rightarrow> 43200000 | Some d \<Rightarrow> d) in
      io_bind (io_modify (\<lambda>w. w\<lparr>trace := trace w @ [CacheGet (cacheId k ty)]\<rparr>)) (\<lambda>_.
      io_catch
        (io_bind initMongoClient (\<lambda>_.
         io_bind (findCache (cacheId k ty)) (\<lambda>cacheEntry.
           case cacheEntry of
             None \<Rightarrow> io_return None
           | Some entry \<Rightarrow>
               io_bind dateNow (\<lambda>now.
                 let cacheAge = now - timestamp entry in
                 if cacheAge > cacheDurationMs then io_return None
                 else io_return (data entry)))))
        (\<lambda>error. io_return None)))"

definition setCachedData ::
  "string \<Rightarrow> string \<Rightarrow> 'p option \<Rightarrow> int option \<Rightarrow> (('s, 'p) world, unit) io" where
  "setCachedData k ty payload duration =
     (let cacheDurationMs = (case duration of None \<Rightarrow> 43200000 | Some d \<Rightarrow> d) in
      io_bind (io_modify (\<lambda>w. w\<lparr>trace := trace w @ [CacheSet (cacheId k ty)]\<rparr>)) (\<lambda>_.
      io_catch
        (io_bind initMongoClient (\<lambda>_.
         io_bind dateNow (\<lambda>stamp.
         io_bind dateNow (\<lambda>later.
         io_bind roundTrip (\<lambda>_.
         io_modify (\<lambda>w. w\<lparr>cacheColl := (cacheColl w)(cacheId k ty \<mapsto>
             \<lparr>data = payload, timestamp = stamp, expiresAt = later + cacheDurationMs\<rparr>)\<rparr>))))))
        (\<lambda>error. io_return ())))"

section \<open>\<open>TwitterHelper.searchTweets\<close>\<close>

definition THIRTY_MINUTES_MS :: int where
  "THIRTY_MINUTES_MS = 30 * 60 * 1000"

definition SEARCH_TIMEOUT_MS :: nat where
  "SEARCH_TIMEOUT_MS = 15000"

text \<open>A number in a template literal.\<close>

fun showNat :: "nat \<Rightarrow> string" where
  "showNat n = (if n < 10 then [''0123456789'' ! n]
                else showNat (n div 10) @ [''0123456789'' ! (n mod 10)])"

text \<open>\<open>{ tweets: [] }\<close>.\<close>

definition emptyResult :: "'t search_result" where
  "emptyResult = \<lparr>tweets = Some [], nextCursor = None, previousCursor = None\<rparr>"

text \<open>
  What \<open>searchTweets\<close> returns: a search result (cached, fetched or empty), or the object
  \<open>{ status, error }\<close>.
\<close>

datatype 't reply = Payload "'t search_result" | Failure nat string

text \<open>A string used as a condition: \<open>undefined\<close> and the empty string are falsy.\<close>

definition present :: "string option \<Rightarrow> bool" where
  "present c = (case c of None \<Rightarrow> False | Some s \<Rightarrow> s \<noteq> [])"

text \<open>
  Lines 190 to 193: \<open>Promise.race\<close> of the search, issued first, and of a timer created
  after it that resolves to \<open>{ tweets: [] }\<close> after 15000 ms. The race settles after the
  first component, in milliseconds from the call of \<open>fetchSearchTweets\<close>, with the second:
  the search decides when it has settled by the time the timer fires.
\<close>

definition race :: "'t settle \<Rightarrow> nat \<times> (js_error + 't search_result option)" where
  "race outcome = (case outcome of
       Settles d r \<Rightarrow> if d \<le> SEARCH_TIMEOUT_MS then (d, r)
                      else (SEARCH_TIMEOUT_MS, Inr (Some emptyResult))
     | Never \<Rightarrow> (SEARCH_TIMEOUT_MS, Inr (Some emptyResult)))"

definition raceSearch ::
  "('s, 't) platform \<Rightarrow> nat option \<Rightarrow> string \<Rightarrow> nat \<Rightarrow> nat \<Rightarrow> string option
     \<Rightarrow> (('s, 'p) world, 't search_result option) io" where
  "raceSearch plat handle query maxTweets searchMode cursor =
     (case handle of
        None \<Rightarrow> io_throw (TypeError ''Cannot read properties of undefined'')
      | Some client \<Rightarrow>
          invoke client (\<lambda>_. Search client)
            (\<lambda>s. case fetchSearchTweets plat query maxTweets searchMode cursor s of
                    (outcome, s') \<Rightarrow> (snd (race outcome), s')))"

text \<open>\<open>result?.tweets && result.tweets.length > 0\<close>.\<close>

definition hasTweets :: "'t search_result option \<Rightarrow> bool" where
  "hasTweets result = (case result of
       None \<Rightarrow> False
     | Some r \<Rightarrow> (case tweets r of None \<Rightarrow> False | Some ts \<Rightarrow> ts \<noteq> []))"

text \<open>The default \<open>useCache = true\<close>; \<open>None\<close> is an argument that is not passed.\<close>

definition useCacheOf :: "bool option \<Rightarrow> bool" where
  "useCacheOf cacheFlag = (case cacheFlag of None \<Rightarrow> True | Some b \<Rightarrow> b)"

text \<open>Line 179: \<open>`${query}_${searchMode}_${maxTweets}`\<close>.\<close>

definition searchCacheKey :: "string \<Rightarrow> nat \<Rightarrow> nat \<Rightarrow> string" where
  "searchCacheKey query searchMode maxTweets =
     query @ ''_'' @ showNat searchMode @ ''_'' @ showNat maxTweets"

text \<open>Lines 182 to 187: the cached results, consulted for an initial search only.\<close>

definition readSearchCache ::
  "bool \<Rightarrow> string option \<Rightarrow> string
     \<Rightarrow> (('s, 't search_result) world, 't search_result option) io" where
  "readSearchCache useCache cursor cacheKey =
     (if useCache \<and> \<not> present cursor
      then getCachedData cacheKey ''search'' (Some THIRTY_MINUTES_MS)
      else io_return None)"

text \<open>Lines 196 to 198.\<close>

definition writeSearchCache ::
  "bool \<Rightarrow> string option \<Rightarrow> string \<Rightarrow> 't search_result option
     \<Rightarrow> (('s, 't search_result) world, unit) io" where
  "writeSearchCache useCache cursor cacheKey result =
     (if useCache \<and> \<not> present cursor \<and> hasTweets result
      then setCachedData cacheKey ''search'' result (Some THIRTY_MINUTES_MS)
      else io_return ())"

text \<open>
  \<open>searchMode\<close> has a default value too, the expression \<open>SearchMode.Latest\<close>, and
  \<open>twitter_helper.js\<close> imports \<open>TwitterClient\<close> only: when the argument is \<open>undefined\<close>
  (\<open>None\<close>), evaluating the default throws a ReferenceError, before the body is entered
  and outside its \<open>try\<close>.
\<close>

definition searchTweets ::
  "('s, 't) platform \<Rightarrow> js_builtins \<Rightarrow> credentials \<Rightarrow> string \<Rightarrow> nat \<Rightarrow> nat option
     \<Rightarrow> string option \<Rightarrow> bool option \<Rightarrow> (('s, 't search_result) world, 't reply) io" where
  "searchTweets plat js credentials query maxTweets mode cursor cacheFlag =
     (case mode of
        None \<Rightarrow> io_throw (ReferenceError ''SearchMode is not defined'')
      | Some searchMode \<Rightarrow>
          (let useCache = useCacheOf cacheFlag in
           io_catch
             (let cacheKey = searchCacheKey query searchMode maxTweets in
              io_bind (readSearchCache useCache cursor cacheKey) (\<lambda>cachedResults.
              case cachedResults of
                Some cached \<Rightarrow> io_return (Payload cached)
              | None \<Rightarrow>
                  io_bind (getClient plat js credentials) (\<lambda>client.
                  io_bind (raceSearch plat client query maxTweets searchMode cursor) (\<lambda>result.
                  io_bind (writeSearchCache useCache cursor cacheKey result) (\<lambda>_.
                  io_return (Payload (case result of None \<Rightarrow> emptyResult | Some r \<Rightarrow> r)))))))
             (\<lambda>error. io_return (Failure 500 (''Failed to search tweets: '' @ message error)))))"

subsection \<open>When the promise of \<open>searchTweets\<close> settles\<close>

text \<open>
  How long the promises awaited by one call take, in milliseconds; \<open>None\<close> is a promise
  that never settles: \<open>getCachedData\<close> (line 183), \<open>getClient\<close> (line 189) and
  \<open>setCachedData\<close> (line 197). The search has its own delay, in its \<open>settle\<close>.
\<close>

record waits =
  readTakes :: "nat option"
  resolveTakes :: "nat option"
  writeTakes :: "nat option"



section \<open>Relations between the state before and after a computation\<close>

text \<open>\<open>keeps R m\<close>: whatever \<open>m\<close> does and however it ends, \<open>R\<close> relates the states around it.\<close>

definition keeps :: "('w \<Rightarrow> 'w \<Rightarrow> bool) \<Rightarrow> ('w, 'a) io \<Rightarrow> bool" where
  "keeps R m = (\<forall>w. R w (snd (m w)))"

text \<open>The events a computation added to the trace.\<close>

definition newEvents :: "('s, 'p) world \<Rightarrow> ('s, 'p) world \<Rightarrow> event list" where
  "newEvents w w' = drop (length (trace w)) (trace w')"

text \<open>No Scraper disappears and the trace is only extended.\<close>

definition grows :: "('s, 'p) world \<Rightarrow> ('s, 'p) world \<Rightarrow> bool" where
  "grows w w' = (length (scrapers w) \<le> length (scrapers w') \<and> prefix (trace w) (trace w'))"

text \<open>The \<open>cookies\<close> collection (the Session Store) is unchanged.\<close>

definition sameSessions :: "('s, 'p) world \<Rightarrow> ('s, 'p) world \<Rightarrow> bool" where
  "sameSessions w w' = (cookieColl w' = cookieColl w)"

text \<open>
  The \<open>twitter_cache\<close> collection (the Cache Store) is unchanged and every added event
  satisfies \<open>P\<close>.
\<close>

definition quietly :: "(event \<Rightarrow> bool) \<Rightarrow> ('s, 'p) world \<Rightarrow> ('s, 'p) world \<Rightarrow> bool" where
  "quietly P w w' = (cacheColl w' = cacheColl w \<and> prefix (trace w) (trace w')
     \<and> list_all P (newEvents w w'))"

fun cacheEvent :: "event \<Rightarrow> bool" where
  "cacheEvent (CacheGet k) = True"
| "cacheEvent (CacheSet k) = True"
| "cacheEvent e = False"


fun isCacheSet :: "event \<Rightarrow> bool" where
  "isCacheSet (CacheSet k) = True"
| "isCacheSet e = False"

text \<open>The next \<open>n\<close> round trips to MongoDB succeed.\<close>

definition storeUp :: "nat \<Rightarrow> ('s, 'p) world \<Rightarrow> bool" where
  "storeUp n w = list_all (\<lambda>f. f = None) (take n (faults w))"

section \<open>A stub platform and sample states\<close>

text \<open>
  A Scraper whose state is the list of cookie strings last applied to it. The probe
  answers \<open>true\<close> exactly on the accepted strings; a login that succeeds installs them.
\<close>

definition stubPlatform ::
  "string list \<Rightarrow> js_error + unit \<Rightarrow> cookie list \<Rightarrow> string settle \<Rightarrow> (string list, string) platform" where
  "stubPlatform accepted loginOutcome captured searchOutcome =
     \<lparr>newScraper = [],
      isLoggedIn = (\<lambda>s. (Inr (s = accepted), s)),
      setCookies = (\<lambda>cs s. (Inr (), cs)),
      login = (\<lambda>u p e t s. (loginOutcome, case loginOutcome of Inl _ \<Rightarrow> s | Inr _ \<Rightarrow> accepted)),
      getCookies = (\<lambda>s. (Inr captured, s)),
      fetchSearchTweets = (\<lambda>q n m c s. (searchOutcome, s))\<rparr>"

definition badCredentialsBody :: string where
  \<open>badCredentialsBody = ''{"errors":[{"message":"Bad credentials"}]}''\<close>

definition stubJs :: js_builtins where
  "stubJs =
     \<lparr>JSON_parse = (\<lambda>s. if s = badCredentialsBody
                          then Some (JObj [(''errors'', JArr [JObj [(''message'', JStr ''Bad credentials'')]])])
                          else None),
      ToString = (\<lambda>v. Inr ''[object Object]''),
      GreaterThanZero = (\<lambda>v. Inr False)\<rparr>"

definition aliceCookie :: cookie where
  "aliceCookie = \<lparr>key = ''auth_token'', cvalue = ''abc'', domain = Some ''api.x.com'', path = ''/'',
     secure = True, httpOnly = False, sameSite = None\<rparr>"

definition aliceStrings :: "string list" where
  "aliceStrings = [''auth_token=abc; Domain=.twitter.com; Path=/; Secure; SameSite=Lax'']"

definition alice :: credentials where
  "alice = \<lparr>username = ''alice'', password = ''secret'', email = None, twoFactorSecret = None,
     cred_cookies = None\<rparr>"

definition aliceWithJar :: credentials where
  "aliceWithJar = alice\<lparr>cred_cookies := Some [aliceCookie]\<rparr>"

text \<open>A process that has just started, with an empty database that answers.\<close>

definition freshWorld :: "(string list, string search_result) world" where
  "freshWorld =
     \<lparr>instances = Map.empty, cookies = Map.empty, scrapers = [], cookieColl = Map.empty,
      cacheColl = Map.empty, faults = [], clock = (\<lambda>n. 1000 + int n), ticks = 0, trace = []\<rparr>"

text \<open>
  A process in which \<open>alice\<close> resolved before: her Scraper is registered at address 0 and
  her jar is in memory and in the Session Store, written at time 5.
\<close>

definition aliceWorld :: "string list \<Rightarrow> (string list, string search_result) world" where
  "aliceWorld registered =
     freshWorld\<lparr>instances := [''alice'' \<mapsto> 0], cookies := [''alice'' \<mapsto> [aliceCookie]],
       scrapers := [registered],
       cookieColl := [''alice'' \<mapsto> \<lparr>doc_cookies = [aliceCookie], updatedAt = 5\<rparr>]\<rparr>"

definition otherCookie :: cookie where
  "otherCookie = \<lparr>key = ''lang'', cvalue = ''en'', domain = Some ''example.org'', path = ''/'',
     secure = False, httpOnly = True, sameSite = Some ''Strict''\<rparr>"

definition sampleResult :: "string search_result" where
  "sampleResult = \<lparr>tweets = Some [''hello''], nextCursor = None, previousCursor = None\<rparr>"

text \<open>A database holding a cache entry for \<open>alice\<close>'s profile, written at time 990.\<close>

definition cachedWorld :: "(string list, string search_result) world" where
  "cachedWorld =
     freshWorld\<lparr>cacheColl := [''profile_alice'' \<mapsto>
       \<lparr>data = Some sampleResult, timestamp = 990, expiresAt = 43200990\<rparr>]\<rparr>"

text \<open>
  A process in which one resolution failed: its Scraper exists, nothing is registered.
\<close>

definition afterFailure :: "(string list, string search_result) world" where
  "afterFailure = freshWorld\<lparr>scrapers := [[]]\<rparr>"

text \<open>
  Delays of the awaited promises: a process that answers quickly, one whose \<open>getClient\<close>
  takes a minute (a slow login), and one whose \<open>getClient\<close> never settles.
\<close>

definition quickWaits :: waits where
  "quickWaits = \<lparr>readTakes = Some 5, resolveTakes = Some 900, writeTakes = Some 7\<rparr>"

definition slowLogin :: waits where
  "slowLogin = \<lparr>readTakes = Some 5, resolveTakes = Some 60000, writeTakes = Some 7\<rparr>"

definition hangingLogin :: waits where
  "hangingLogin = \<lparr>readTakes = Some 5, resolveTakes = None, writeTakes = Some 7\<rparr>"

section \<open>Unfolding and evaluation\<close>

lemmas io_defs = io_return_def io_throw_def io_bind_def io_catch_def io_get_def io_modify_def

lemmas client_defs = getClient_def tryExistingClient_def tryPassedCookies_def
  tryInMemoryCookies_def tryMongoCookies_def tryFreshLogin_def saveCookies_def
  saveClientAndReturn_def findSession_def setCookiesOnClient_def probe_def invoke_def
  construct_def roundTrip_def dateNow_def initMongoClient_def

lemmas cache_defs = getCachedData_def setCachedData_def findCache_def cacheId_def
  roundTrip_def dateNow_def initMongoClient_def

lemmas example_defs = stubPlatform_def stubJs_def aliceCookie_def otherCookie_def
  aliceStrings_def alice_def aliceWithJar_def freshWorld_def aliceWorld_def
  badCredentialsBody_def sampleResult_def cachedWorld_def afterFailure_def quickWaits_def
  slowLogin_def hangingLogin_def

lemma io_catch_rethrow: "io_catch m (\<lambda>error. io_throw error) = m"
  by (rule ext) (simp add: io_catch_def io_throw_def split: prod.splits sum.splits)

section \<open>Domain normalization\<close>

lemma js_includes_sublist: "js_includes s t = sublist t s"
  by (induction s) (auto simp: sublist_Cons_right)

lemma rewriteDomain_idem: "rewriteDomain (rewriteDomain d) = rewriteDomain d"
  by (cases d) (simp_all add: rewriteDomain_def)

lemma rewriteDomain_alias:
  "js_includes d ''x.com'' \<Longrightarrow> rewriteDomain (Some d) = Some ''.twitter.com''"
  by (cases d) (simp_all add: rewriteDomain_def)

lemma rewriteDomain_other:
  "\<not> js_includes d ''x.com'' \<Longrightarrow> rewriteDomain (Some d) = Some d"
  by (simp add: rewriteDomain_def)

lemma cookieString_rewrite:
  "cookieString (c\<lparr>domain := rewriteDomain (domain c)\<rparr>) = cookieString c"
  by (simp add: cookieString_def rewriteDomain_idem)

lemma rewriteJar_strings: "map cookieString (rewriteJar jar) = map cookieString jar"
  by (simp add: rewriteJar_def cookieString_rewrite comp_def)

lemma rewriteJar_idem: "rewriteJar (rewriteJar jar) = rewriteJar jar"
  by (simp add: rewriteJar_def rewriteDomain_idem comp_def)

lemma setCookiesOnClient_trace:
  "client < length (scrapers w) \<Longrightarrow>
   trace (snd (setCookiesOnClient plat client jar w))
     = trace w @ [SetCookies client (map cookieString jar)]"
  by (simp add: setCookiesOnClient_def invoke_def Let_def split: prod.splits)

lemma sublist_mid: "sublist t (p @ t @ q)"
  unfolding sublist_def by blast

lemma cookieString_shape:
  "cookieString c = (key c @ ''='' @ cvalue c)
     @ (''; Domain='' @ (case rewriteDomain (domain c) of None \<Rightarrow> ''undefined'' | Some d \<Rightarrow> d)
         @ ''; Path='')
     @ (path c
       @ (if secure c then ''; Secure'' else '''')
       @ (if httpOnly c then ''; HttpOnly'' else '''')
       @ ''; SameSite=''
       @ (case sameSite c of None \<Rightarrow> ''Lax'' | Some s \<Rightarrow> if s = [] then ''Lax'' else s))"
  unfolding cookieString_def by simp

lemma cookieString_domain:
  "sublist (''; Domain='' @ (case rewriteDomain (domain c) of None \<Rightarrow> ''undefined'' | Some d \<Rightarrow> d)
             @ ''; Path='')
     (cookieString c)"
  by (subst cookieString_shape) (rule sublist_mid)

lemma cookieString_alias:
  assumes "domain c = Some d" and "js_includes d ''x.com''"
  shows "sublist (''; Domain='' @ ''.twitter.com'' @ ''; Path='') (cookieString c)"
proof -
  have "rewriteDomain (domain c) = Some ''.twitter.com''"
    using assms rewriteDomain_alias by simp
  then show ?thesis
    using cookieString_domain [of c] by (simp only: option.case)
qed

lemma cookieString_alias_eq:
  assumes "domain c = Some d" and "js_includes d ''x.com''"
  shows "cookieString c = cookieString (c\<lparr>domain := Some ''.twitter.com''\<rparr>)"
proof -
  have "rewriteDomain (domain c) = Some ''.twitter.com''"
    using assms rewriteDomain_alias by simp
  moreover have "rewriteDomain (Some ''.twitter.com'') = Some ''.twitter.com''"
    by (simp add: rewriteDomain_def)
  ultimately show ?thesis
    unfolding cookieString_def by simp
qed

lemma cookieString_other:
  assumes "domain c = Some d" and "\<not> js_includes d ''x.com''"
  shows "sublist (''; Domain='' @ d @ ''; Path='') (cookieString c)"
proof -
  have "rewriteDomain (domain c) = Some d"
    using assms rewriteDomain_other by simp
  then show ?thesis
    using cookieString_domain [of c] by (simp only: option.case)
qed

lemma setCookiesOnClient_run:
  "client < length (scrapers w) \<Longrightarrow>
   setCookiesOnClient plat client jar w
     = (fst (setCookies plat (map cookieString jar) (scrapers w ! client)),
        w\<lparr>scrapers := (scrapers w)
             [client := snd (setCookies plat (map cookieString jar) (scrapers w ! client))],
          trace := trace w @ [SetCookies client (map cookieString jar)]\<rparr>)"
  by (simp add: setCookiesOnClient_def invoke_def Let_def split: prod.splits)

lemma cookieString_exact:
  assumes "domain c = Some d"
  shows "cookieString c
     = key c @ ''='' @ cvalue c
       @ ''; Domain='' @ (if js_includes d ''x.com'' then ''.twitter.com'' else d)
       @ ''; Path='' @ path c
       @ (if secure c then ''; Secure'' else '''')
       @ (if httpOnly c then ''; HttpOnly'' else '''')
       @ ''; SameSite='' @ (case sameSite c of None \<Rightarrow> ''Lax'' | Some s \<Rightarrow> if s = [] then ''Lax'' else s)"
proof (cases "js_includes d ''x.com''")
  case True
  then have "rewriteDomain (domain c) = Some ''.twitter.com''"
    using assms rewriteDomain_alias by simp
  then show ?thesis using True unfolding cookieString_def by simp
next
  case False
  then have "rewriteDomain (domain c) = Some d"
    using assms rewriteDomain_other by simp
  then show ?thesis using False unfolding cookieString_def by simp
qed

text \<open>
  C5. \<open>setCookiesOnClient\<close> calls \<open>client.setCookies\<close> once, with one string per cookie
  of the jar: its outcome and the next state of the Scraper are those of \<open>setCookies\<close>
  applied to these strings. The string of a cookie carries the domain \<open>.twitter.com\<close>
  when the cookie's domain contains \<open>x.com\<close>, exactly as if the jar had carried that
  domain, and the cookie's own domain otherwise; key, value, path, flags and same-site
  policy are as in the cookie. The rewrite is idempotent: rewriting a rewritten domain or
  jar changes nothing, and a rewritten jar is submitted as the same strings.
\<close>

theorem setCookiesOnClient_rewrites_domains:
  "client < length (scrapers w) \<Longrightarrow>
     setCookiesOnClient plat client jar w
       = (fst (setCookies plat (map cookieString jar) (scrapers w ! client)),
          w\<lparr>scrapers := (scrapers w)
               [client := snd (setCookies plat (map cookieString jar) (scrapers w ! client))],
            trace := trace w @ [SetCookies client (map cookieString jar)]\<rparr>)
   \<and> trace (snd (setCookiesOnClient plat client jar w))
       = trace w @ [SetCookies client (map cookieString jar)]
   \<and> (\<forall>c \<in> set jar. \<forall>d. domain c = Some d \<longrightarrow>
        cookieString c
          = key c @ ''='' @ cvalue c
            @ ''; Domain='' @ (if js_includes d ''x.com'' then ''.twitter.com'' else d)
            @ ''; Path='' @ path c
            @ (if secure c then ''; Secure'' else '''')
            @ (if httpOnly c then ''; HttpOnly'' else '''')
            @ ''; SameSite=''
            @ (case sameSite c of None \<Rightarrow> ''Lax'' | Some s \<Rightarrow> if s = [] then ''Lax'' else s)
      \<and> (js_includes d ''x.com'' \<longrightarrow>
           sublist (''; Domain='' @ ''.twitter.com'' @ ''; Path='') (cookieString c)
           \<and> cookieString c = cookieString (c\<lparr>domain := Some ''.twitter.com''\<rparr>))
      \<and> (\<not> js_includes d ''x.com'' \<longrightarrow>
           sublist (''; Domain='' @ d @ ''; Path='') (cookieString c)))
   \<and> rewriteDomain (rewriteDomain dm) = rewriteDomain dm
   \<and> map cookieString (rewriteJar jar) = map cookieString jar
   \<and> rewriteJar (rewriteJar jar) = rewriteJar jar"
proof (intro conjI ballI allI impI)
  assume "client < length (scrapers w)"
  then show "setCookiesOnClient plat client jar w
       = (fst (setCookies plat (map cookieString jar) (scrapers w ! client)),
          w\<lparr>scrapers := (scrapers w)
               [client := snd (setCookies plat (map cookieString jar) (scrapers w ! client))],
            trace := trace w @ [SetCookies client (map cookieString jar)]\<rparr>)"
    by (rule setCookiesOnClient_run)
next
  assume "client < length (scrapers w)"
  then show "trace (snd (setCookiesOnClient plat client jar w))
       = trace w @ [SetCookies client (map cookieString jar)]"
    by (rule setCookiesOnClient_trace)
next
  fix c :: cookie and d assume "domain c = Some d"
  then show "cookieString c
          = key c @ ''='' @ cvalue c
            @ ''; Domain='' @ (if js_includes d ''x.com'' then ''.twitter.com'' else d)
            @ ''; Path='' @ path c
            @ (if secure c then ''; Secure'' else '''')
            @ (if httpOnly c then ''; HttpOnly'' else '''')
            @ ''; SameSite=''
            @ (case sameSite c of None \<Rightarrow> ''Lax'' | Some s \<Rightarrow> if s = [] then ''Lax'' else s)"
    by (rule cookieString_exact)
next
  fix c :: cookie and d assume "domain c = Some d" "js_includes d ''x.com''"
  then show "sublist (''; Domain='' @ ''.twitter.com'' @ ''; Path='') (cookieString c)"
    by (rule cookieString_alias)
next
  fix c :: cookie and d assume "domain c = Some d" "js_includes d ''x.com''"
  then show "cookieString c = cookieString (c\<lparr>domain := Some ''.twitter.com''\<rparr>)"
    by (rule cookieString_alias_eq)
next
  fix c :: cookie and d assume "domain c = Some d" "\<not> js_includes d ''x.com''"
  then show "sublist (''; Domain='' @ d @ ''; Path='') (cookieString c)"
    by (rule cookieString_other)
next
  show "rewriteDomain (rewriteDomain dm) = rewriteDomain dm" by (rule rewriteDomain_idem)
next
  show "map cookieString (rewriteJar jar) = map cookieString jar" by (rule rewriteJar_strings)
next
  show "rewriteJar (rewriteJar jar) = rewriteJar jar" by (rule rewriteJar_idem)
qed

theorem setCookiesOnClient_rewrites_domains_witness:
  "0 < length (scrapers (aliceWorld []))
   \<and> aliceCookie \<in> set [aliceCookie, otherCookie] \<and> domain aliceCookie = Some ''api.x.com''
   \<and> js_includes ''api.x.com'' ''x.com''
   \<and> otherCookie \<in> set [aliceCookie, otherCookie] \<and> domain otherCookie = Some ''example.org''
   \<and> \<not> js_includes ''example.org'' ''x.com''
   \<and> fst (setCookiesOnClient (stubPlatform aliceStrings (Inr ()) [] Never) 0
             [aliceCookie, otherCookie] (aliceWorld [])) = Inr ()
   \<and> scrapers (snd (setCookiesOnClient (stubPlatform aliceStrings (Inr ()) [] Never) 0
                      [aliceCookie, otherCookie] (aliceWorld [])))
       = [[''auth_token=abc; Domain=.twitter.com; Path=/; Secure; SameSite=Lax'',
           ''lang=en; Domain=example.org; Path=/; HttpOnly; SameSite=Strict'']]
   \<and> trace (snd (setCookiesOnClient (stubPlatform aliceStrings (Inr ()) [] Never) 0
                   [aliceCookie, otherCookie] (aliceWorld [])))
       = [SetCookies 0 [''auth_token=abc; Domain=.twitter.com; Path=/; Secure; SameSite=Lax'',
                        ''lang=en; Domain=example.org; Path=/; HttpOnly; SameSite=Strict'']]
   \<and> sublist (''; Domain='' @ ''.twitter.com'' @ ''; Path='') (cookieString aliceCookie)
   \<and> sublist (''; Domain='' @ ''example.org'' @ ''; Path='') (cookieString otherCookie)"
proof -
  let ?plat = "stubPlatform aliceStrings (Inr ()) [] Never :: (string list, string) platform"
  have h: "0 < length (scrapers (aliceWorld []))"
    by (simp add: example_defs)
  have a: "aliceCookie \<in> set [aliceCookie, otherCookie]"
    and b: "otherCookie \<in> set [aliceCookie, otherCookie]" by simp_all
  have da: "domain aliceCookie = Some ''api.x.com''"
    and db: "domain otherCookie = Some ''example.org''" by (simp_all add: example_defs)
  have ia: "js_includes ''api.x.com'' ''x.com''"
    and ib: "\<not> js_includes ''example.org'' ''x.com''" by simp_all
  have strings: "map cookieString [aliceCookie, otherCookie]
      = [''auth_token=abc; Domain=.twitter.com; Path=/; Secure; SameSite=Lax'',
         ''lang=en; Domain=example.org; Path=/; HttpOnly; SameSite=Strict'']"
    by (simp add: example_defs cookieString_def rewriteDomain_def)
  note t = setCookiesOnClient_rewrites_domains [OF h, of ?plat "[aliceCookie, otherCookie]"
      "Some ''x.com''"]
  from t have run: "setCookiesOnClient ?plat 0 [aliceCookie, otherCookie] (aliceWorld [])
       = (fst (setCookies ?plat (map cookieString [aliceCookie, otherCookie])
                 (scrapers (aliceWorld []) ! 0)),
          (aliceWorld [])\<lparr>scrapers := (scrapers (aliceWorld []))
               [0 := snd (setCookies ?plat (map cookieString [aliceCookie, otherCookie])
                            (scrapers (aliceWorld []) ! 0))],
            trace := trace (aliceWorld []) @ [SetCookies 0 (map cookieString [aliceCookie, otherCookie])]\<rparr>)"
    by (rule conjunct1)
  from t have t2: "\<forall>c \<in> set [aliceCookie, otherCookie]. \<forall>d. domain c = Some d \<longrightarrow>
        cookieString c
          = key c @ ''='' @ cvalue c
            @ ''; Domain='' @ (if js_includes d ''x.com'' then ''.twitter.com'' else d)
            @ ''; Path='' @ path c
            @ (if secure c then ''; Secure'' else '''')
            @ (if httpOnly c then ''; HttpOnly'' else '''')
            @ ''; SameSite=''
            @ (case sameSite c of None \<Rightarrow> ''Lax'' | Some s \<Rightarrow> if s = [] then ''Lax'' else s)
      \<and> (js_includes d ''x.com'' \<longrightarrow>
           sublist (''; Domain='' @ ''.twitter.com'' @ ''; Path='') (cookieString c)
           \<and> cookieString c = cookieString (c\<lparr>domain := Some ''.twitter.com''\<rparr>))
      \<and> (\<not> js_includes d ''x.com'' \<longrightarrow>
           sublist (''; Domain='' @ d @ ''; Path='') (cookieString c))"
    by (rule conjunct1 [OF conjunct2 [OF conjunct2]])
  have s1: "sublist (''; Domain='' @ ''.twitter.com'' @ ''; Path='') (cookieString aliceCookie)"
    using t2 a da ia by blast
  have s2: "sublist (''; Domain='' @ ''example.org'' @ ''; Path='') (cookieString otherCookie)"
    using t2 b db ib by blast
  have r1: "fst (setCookiesOnClient ?plat 0 [aliceCookie, otherCookie] (aliceWorld [])) = Inr ()"
    unfolding run by (simp add: stubPlatform_def)
  have r2: "scrapers (snd (setCookiesOnClient ?plat 0 [aliceCookie, otherCookie] (aliceWorld [])))
       = [[''auth_token=abc; Domain=.twitter.com; Path=/; Secure; SameSite=Lax'',
           ''lang=en; Domain=example.org; Path=/; HttpOnly; SameSite=Strict'']]"
    unfolding run strings by (simp add: stubPlatform_def aliceWorld_def freshWorld_def)
  have r3: "trace (snd (setCookiesOnClient ?plat 0 [aliceCookie, otherCookie] (aliceWorld [])))
       = [SetCookies 0 [''auth_token=abc; Domain=.twitter.com; Path=/; Secure; SameSite=Lax'',
                        ''lang=en; Domain=example.org; Path=/; HttpOnly; SameSite=Strict'']]"
    unfolding run strings by (simp add: aliceWorld_def freshWorld_def)
  show ?thesis
    using h a b da db ia ib r1 r2 r3 s1 s2 by (intro conjI)
qed

section \<open>Tier 1: the Existing Instance\<close>

text \<open>
  C1. When the registry holds a handle for the identity and its probe returns \<open>true\<close>,
  \<open>getClient\<close> returns that handle. The only thing it does is the probe: no Scraper is
  constructed, \<open>login\<close> is not invoked, and registry, jars and database stay as they were.
\<close>

theorem getClient_existing_instance:
  assumes "instances w (username credentials) = Some h"
    and "h < length (scrapers w)"
    and "isLoggedIn plat (scrapers w ! h) = (Inr True, s')"
  shows "getClient plat js credentials w
           = (Inr (Some h), w\<lparr>scrapers := (scrapers w)[h := s'], trace := trace w @ [Probe h True]\<rparr>)"
  using assms by (simp add: getClient_def tryExistingClient_def probe_def invoke_def io_defs Let_def)

theorem getClient_existing_instance_witness:
  "instances (aliceWorld aliceStrings) (username alice) = Some 0
   \<and> 0 < length (scrapers (aliceWorld aliceStrings))
   \<and> isLoggedIn (stubPlatform aliceStrings (Inr ()) [] Never) (scrapers (aliceWorld aliceStrings) ! 0)
       = (Inr True, aliceStrings)
   \<and> fst (getClient (stubPlatform aliceStrings (Inr ()) [] Never) stubJs alice (aliceWorld aliceStrings))
       = Inr (Some 0)
   \<and> trace (snd (getClient (stubPlatform aliceStrings (Inr ()) [] Never) stubJs alice
                   (aliceWorld aliceStrings))) = [Probe 0 True]
   \<and> length (scrapers (snd (getClient (stubPlatform aliceStrings (Inr ()) [] Never) stubJs alice
                   (aliceWorld aliceStrings)))) = 1"
proof -
  have h1: "instances (aliceWorld aliceStrings) (username alice) = Some 0"
    by (simp add: example_defs)
  have h2: "0 < length (scrapers (aliceWorld aliceStrings))"
    by (simp add: example_defs)
  have h3: "isLoggedIn (stubPlatform aliceStrings (Inr ()) [] Never)
              (scrapers (aliceWorld aliceStrings) ! 0) = (Inr True, aliceStrings)"
    by (simp add: stubPlatform_def aliceWorld_def freshWorld_def)
  note t = getClient_existing_instance [OF h1 h2 h3, of stubJs]
  have r1: "fst (getClient (stubPlatform aliceStrings (Inr ()) [] Never) stubJs alice (aliceWorld aliceStrings))
       = Inr (Some 0)"
    unfolding t by simp
  have r2: "trace (snd (getClient (stubPlatform aliceStrings (Inr ()) [] Never) stubJs alice
                   (aliceWorld aliceStrings))) = [Probe 0 True]"
    unfolding t by (simp add: aliceWorld_def freshWorld_def)
  have r3: "length (scrapers (snd (getClient (stubPlatform aliceStrings (Inr ()) [] Never) stubJs alice
                   (aliceWorld aliceStrings)))) = 1"
    unfolding t by (simp add: aliceWorld_def freshWorld_def)
  show ?thesis using h1 h2 h3 r1 r2 r3 by (intro conjI)
qed

section \<open>The Cache Store\<close>

lemma getCachedData_frame: "cacheColl (snd (getCachedData k ty d w)) = cacheColl w"
  by (simp add: cache_defs io_defs Let_def split: list.splits option.splits)

lemma roundTrip_cases:
  "roundTrip w = (Inr (), w\<lparr>faults := tl (faults w)\<rparr>)
     \<and> list_all (\<lambda>f. f = None) (take (Suc 0) (faults w))
   \<or> (\<exists>m. roundTrip w = (Inl (Error m), w\<lparr>faults := tl (faults w)\<rparr>))
     \<and> \<not> list_all (\<lambda>f. f = None) (take (Suc 0) (faults w))"
  by (cases "faults w") (auto simp: roundTrip_def split: option.splits)

lemma take_Suc_tl:
  "list_all P (take (Suc n) xs) = (list_all P (take (Suc 0) xs) \<and> list_all P (take n (tl xs)))"
  by (cases xs) auto

lemma getCachedData_result:
  "fst (getCachedData k ty d w)
     = Inr (if storeUp 2 w
            then (case cacheColl w (cacheId k ty) of
                    None \<Rightarrow> None
                  | Some e \<Rightarrow>
                      if clock w (ticks w) - timestamp e > (case d of None \<Rightarrow> 43200000 | Some t \<Rightarrow> t)
                      then None else data e)
            else None)"
proof -
  let ?w1 = "w\<lparr>trace := trace w @ [CacheGet (cacheId k ty)]\<rparr>"
  let ?w2 = "?w1\<lparr>faults := tl (faults ?w1)\<rparr>"
  have two: "storeUp 2 w = (list_all (\<lambda>f. f = None) (take (Suc 0) (faults w))
      \<and> list_all (\<lambda>f. f = None) (take (Suc 0) (tl (faults w))))"
    unfolding storeUp_def numeral_2_eq_2 by (rule take_Suc_tl)
  from roundTrip_cases [of ?w1] roundTrip_cases [of ?w2]
  show ?thesis
    by (auto simp: getCachedData_def findCache_def initMongoClient_def dateNow_def io_defs Let_def two
        split: option.splits)
qed

lemma storeUp_Suc:
  "storeUp (Suc n) w = (list_all (\<lambda>f. f = None) (take (Suc 0) (faults w))
      \<and> storeUp n (w\<lparr>faults := tl (faults w)\<rparr>))"
  unfolding storeUp_def by (simp add: take_Suc_tl [of _ n])

lemma setCachedData_ok:
  assumes "storeUp (Suc (Suc n)) w"
  shows "setCachedData k ty payload d' w
     = (Inr (), w\<lparr>trace := trace w @ [CacheSet (cacheId k ty)],
                   faults := tl (tl (faults w)),
                   ticks := Suc (Suc (ticks w)),
                   cacheColl := (cacheColl w)(cacheId k ty \<mapsto>
                     \<lparr>data = payload, timestamp = clock w (ticks w),
                      expiresAt = clock w (Suc (ticks w))
                        + (case d' of None \<Rightarrow> 43200000 | Some t \<Rightarrow> t)\<rparr>)\<rparr>)
       \<and> storeUp n (w\<lparr>faults := tl (tl (faults w))\<rparr>)"
proof -
  let ?w1 = "w\<lparr>trace := trace w @ [CacheSet (cacheId k ty)]\<rparr>"
  let ?w2 = "?w1\<lparr>faults := tl (faults w), ticks := Suc (Suc (ticks w))\<rparr>"
  have up: "list_all (\<lambda>f. f = None) (take (Suc 0) (faults w))"
    "list_all (\<lambda>f. f = None) (take (Suc 0) (tl (faults w)))"
    "storeUp n (w\<lparr>faults := tl (tl (faults w))\<rparr>)"
    using assms by (simp_all add: storeUp_Suc)
  from up roundTrip_cases [of ?w1] roundTrip_cases [of ?w2]
  show ?thesis
    by (auto simp: setCachedData_def initMongoClient_def dateNow_def io_defs Let_def)
qed

lemma set_then_get:
  assumes "storeUp 4 w"
  shows "fst (getCachedData k ty d (snd (setCachedData k ty payload d' w)))
     = Inr (if clock w (ticks w + 2) - clock w (ticks w) > (case d of None \<Rightarrow> 43200000 | Some t \<Rightarrow> t)
            then None else payload)"
proof -
  have "storeUp (Suc (Suc 2)) w" using assms by (simp add: eval_nat_numeral)
  from setCachedData_ok [OF this, of k ty payload d']
  show ?thesis
    by (simp add: getCachedData_result storeUp_def)
qed


text \<open>
  C4, as the code has it. \<open>getCachedData\<close> never changes the cache collection, so a
  stale entry stays where it is. When the two round trips of the read succeed, the
  result is \<open>null\<close> exactly when there is no entry under the composite key, when the entry
  is older than the duration passed (the clock reading minus the stored timestamp exceeds
  it), or when the stored payload is itself \<open>null\<close>; otherwise it is the stored payload.
  When a round trip fails the result is \<open>null\<close> whatever the collection holds. A read that
  follows a write of the same key and type, all four round trips succeeding, returns the
  payload written unless the time between the write's timestamp and the read exceeds the
  duration of the read.
\<close>

theorem getCachedData_lazy_expiry:
  "cacheColl (snd (getCachedData k ty d w)) = cacheColl w
   \<and> fst (getCachedData k ty d w)
       = Inr (if storeUp 2 w
              then (case cacheColl w (cacheId k ty) of
                      None \<Rightarrow> None
                    | Some e \<Rightarrow>
                        if clock w (ticks w) - timestamp e > (case d of None \<Rightarrow> 43200000 | Some t \<Rightarrow> t)
                        then None else data e)
              else None)
   \<and> (storeUp 4 w \<longrightarrow>
        fst (getCachedData k ty d (snd (setCachedData k ty payload d' w)))
          = Inr (if clock w (ticks w + 2) - clock w (ticks w) > (case d of None \<Rightarrow> 43200000 | Some t \<Rightarrow> t)
                 then None else payload))"
  using getCachedData_frame getCachedData_result set_then_get by blast

theorem getCachedData_lazy_expiry_witness:
  "storeUp 4 freshWorld
   \<and> fst (getCachedData ''alice'' ''profile'' (Some 1000)
            (snd (setCachedData ''alice'' ''profile'' (Some sampleResult) (Some 1000) freshWorld)))
       = Inr (Some sampleResult)
   \<and> fst (getCachedData ''alice'' ''profile'' (Some 1)
            (snd (setCachedData ''alice'' ''profile'' (Some sampleResult) (Some 1) freshWorld)))
       = Inr None"
proof -
  have up: "storeUp 4 freshWorld"
    by (simp add: storeUp_def freshWorld_def)
  have age: "clock freshWorld (ticks freshWorld + 2) - clock freshWorld (ticks freshWorld) = 2"
    by (simp add: freshWorld_def)
  note t = getCachedData_lazy_expiry [of "''alice''" "''profile''" _ freshWorld "Some sampleResult"]
  have a: "fst (getCachedData ''alice'' ''profile'' (Some 1000)
            (snd (setCachedData ''alice'' ''profile'' (Some sampleResult) (Some 1000) freshWorld)))
       = Inr (Some sampleResult)"
    using t [of "Some 1000" "Some 1000"] up age by simp
  have b: "fst (getCachedData ''alice'' ''profile'' (Some 1)
            (snd (setCachedData ''alice'' ''profile'' (Some sampleResult) (Some 1) freshWorld)))
       = Inr None"
    using t [of "Some 1" "Some 1"] up age by simp
  show ?thesis using up a b by (intro conjI)
qed

text \<open>
  The claim as stated fails when the database does not answer: the entry exists and is
  ten milliseconds old, and the read returns \<open>null\<close>.
\<close>

theorem getCachedData_unreachable_store_counterexample:
  "cacheColl (cachedWorld\<lparr>faults := [Some ''ECONNREFUSED'']\<rparr>) (cacheId ''alice'' ''profile'')
     = Some \<lparr>data = Some sampleResult, timestamp = 990, expiresAt = 43200990\<rparr>
   \<and> clock (cachedWorld\<lparr>faults := [Some ''ECONNREFUSED'']\<rparr>)
        (ticks (cachedWorld\<lparr>faults := [Some ''ECONNREFUSED'']\<rparr>)) - 990 = 10
   \<and> \<not> (10 > (43200000 :: int))
   \<and> fst (getCachedData ''alice'' ''profile'' None (cachedWorld\<lparr>faults := [Some ''ECONNREFUSED'']\<rparr>))
       = Inr None"
  by (simp add: cache_defs io_defs Let_def cachedWorld_def freshWorld_def)

section \<open>Rules for \<open>keeps\<close>\<close>

lemma keeps_return: "reflp R \<Longrightarrow> keeps R (io_return x)"
  by (simp add: keeps_def io_return_def reflp_def)

lemma keeps_throw: "reflp R \<Longrightarrow> keeps R (io_throw e)"
  by (simp add: keeps_def io_throw_def reflp_def)

lemma keeps_get: "reflp R \<Longrightarrow> keeps R io_get"
  by (simp add: keeps_def io_get_def reflp_def)

lemma keeps_modify: "(\<And>w. R w (f w)) \<Longrightarrow> keeps R (io_modify f)"
  by (simp add: keeps_def io_modify_def)

lemma keeps_bind:
  assumes "transp R" and "keeps R m" and "\<And>x. keeps R (f x)"
  shows "keeps R (io_bind m f)"
  unfolding keeps_def io_bind_def
proof
  fix w
  obtain r w' where mw: "m w = (r, w')" by (cases "m w")
  have a: "R w w'" using assms(2) mw by (auto simp: keeps_def dest: spec [of _ w])
  show "R w (snd (case m w of (Inl e, w') \<Rightarrow> (Inl e, w') | (Inr x, w') \<Rightarrow> f x w'))"
  proof (cases r)
    case (Inl e)
    then show ?thesis using a mw by simp
  next
    case (Inr x)
    have "R w' (snd (f x w'))" using assms(3) by (simp add: keeps_def)
    then show ?thesis using a mw Inr assms(1) by (auto elim: transpE)
  qed
qed

lemma keeps_catch:
  assumes "transp R" and "keeps R m" and "\<And>e. keeps R (h e)"
  shows "keeps R (io_catch m h)"
  unfolding keeps_def io_catch_def
proof
  fix w
  obtain r w' where mw: "m w = (r, w')" by (cases "m w")
  have a: "R w w'" using assms(2) mw by (auto simp: keeps_def dest: spec [of _ w])
  show "R w (snd (case m w of (Inl e, w') \<Rightarrow> h e w' | (Inr x, w') \<Rightarrow> (Inr x, w')))"
  proof (cases r)
    case (Inr x)
    then show ?thesis using a mw by simp
  next
    case (Inl e)
    have "R w' (snd (h e w'))" using assms(3) by (simp add: keeps_def)
    then show ?thesis using a mw Inl assms(1) by (auto elim: transpE)
  qed
qed

lemma keeps_if: "keeps R a \<Longrightarrow> keeps R b \<Longrightarrow> keeps R (if c then a else b)"
  by simp

lemma keeps_case_option:
  "keeps R a \<Longrightarrow> (\<And>x. keeps R (f x)) \<Longrightarrow> keeps R (case v of None \<Rightarrow> a | Some x \<Rightarrow> f x)"
  by (cases v) simp_all

lemma keeps_case_sum:
  "(\<And>x. keeps R (f x)) \<Longrightarrow> (\<And>y. keeps R (g y))
     \<Longrightarrow> keeps R (case v of Inl x \<Rightarrow> f x | Inr y \<Rightarrow> g y)"
  by (cases v) simp_all

lemma keepsD: "keeps R m \<Longrightarrow> m w = (r, w') \<Longrightarrow> R w w'"
  by (auto simp: keeps_def dest: spec [of _ w])

lemmas keeps_intros = keeps_bind keeps_catch keeps_if keeps_case_option keeps_case_sum
  keeps_return keeps_throw keeps_get keeps_modify

subsection \<open>Scrapers and trace only grow\<close>

lemma grows_refl: "reflp grows"
  by (simp add: reflp_def grows_def)

lemma grows_trans: "transp grows"
  by (auto simp: transp_def grows_def intro: prefix_order.order_trans)

lemma grows_roundTrip: "keeps grows roundTrip"
  by (simp add: keeps_def roundTrip_def grows_def split: list.splits option.splits)

lemma grows_dateNow: "keeps grows dateNow"
  by (simp add: keeps_def dateNow_def grows_def)

lemma grows_construct: "keeps grows (construct plat)"
  by (simp add: keeps_def construct_def grows_def)

lemma grows_invoke: "keeps grows (invoke c ev m)"
  by (simp add: keeps_def invoke_def grows_def split: prod.splits)

lemmas grows_intros = keeps_intros grows_refl grows_trans grows_roundTrip grows_dateNow
  grows_construct grows_invoke

lemma grows_initMongoClient: "keeps grows initMongoClient"
  unfolding initMongoClient_def by (intro grows_intros)

lemma grows_saveCookies: "keeps grows (saveCookies u jar)"
  unfolding saveCookies_def by (intro grows_intros grows_initMongoClient; simp add: grows_def)

lemma grows_setCookiesOnClient: "keeps grows (setCookiesOnClient plat c jar)"
  unfolding setCookiesOnClient_def Let_def by (intro grows_intros)

lemma grows_tryExistingClient: "keeps grows (tryExistingClient plat u)"
  unfolding tryExistingClient_def probe_def by (intro grows_intros)

lemma grows_tryPassedCookies: "keeps grows (tryPassedCookies plat c u jar)"
  unfolding tryPassedCookies_def probe_def
  by (intro grows_intros grows_setCookiesOnClient grows_saveCookies; simp add: grows_def)

lemma grows_tryInMemoryCookies: "keeps grows (tryInMemoryCookies plat c u)"
  unfolding tryInMemoryCookies_def probe_def
  by (intro grows_intros grows_setCookiesOnClient)

lemma grows_tryMongoCookies: "keeps grows (tryMongoCookies plat c u)"
  unfolding tryMongoCookies_def findSession_def probe_def
  by (intro grows_intros grows_setCookiesOnClient grows_initMongoClient; simp add: grows_def)

lemma grows_tryFreshLogin: "keeps grows (tryFreshLogin plat c u p e t)"
  unfolding tryFreshLogin_def probe_def
  by (intro grows_intros grows_saveCookies; simp add: grows_def)

lemma grows_saveClientAndReturn: "keeps grows (saveClientAndReturn u c)"
  unfolding saveClientAndReturn_def
  by (intro grows_intros; simp add: grows_def)

lemma grows_getClient: "keeps grows (getClient plat js credentials)"
  unfolding getClient_def Let_def
  by (intro grows_intros grows_tryExistingClient grows_tryPassedCookies grows_tryInMemoryCookies
        grows_tryMongoCookies grows_tryFreshLogin grows_saveClientAndReturn)

subsection \<open>The Session Store is untouched\<close>

lemma sameSessions_refl: "reflp sameSessions"
  by (simp add: reflp_def sameSessions_def)

lemma sameSessions_trans: "transp sameSessions"
  by (simp add: transp_def sameSessions_def)

lemma sameSessions_roundTrip: "keeps sameSessions roundTrip"
  by (simp add: keeps_def roundTrip_def sameSessions_def split: list.splits option.splits)

lemma sameSessions_invoke: "keeps sameSessions (invoke c ev m)"
  by (simp add: keeps_def invoke_def sameSessions_def split: prod.splits)

lemmas sameSessions_intros = keeps_intros sameSessions_refl sameSessions_trans
  sameSessions_roundTrip sameSessions_invoke

lemma sameSessions_tryExistingClient: "keeps sameSessions (tryExistingClient plat u)"
  unfolding tryExistingClient_def probe_def by (intro sameSessions_intros)

lemma sameSessions_tryInMemoryCookies: "keeps sameSessions (tryInMemoryCookies plat c u)"
  unfolding tryInMemoryCookies_def probe_def setCookiesOnClient_def Let_def
  by (intro sameSessions_intros)

lemma sameSessions_tryMongoCookies: "keeps sameSessions (tryMongoCookies plat c u)"
  unfolding tryMongoCookies_def findSession_def probe_def setCookiesOnClient_def Let_def
    initMongoClient_def
  by (intro sameSessions_intros; simp add: sameSessions_def)

subsection \<open>The Cache Store is untouched\<close>

lemma quietly_alt:
  "quietly P w w' = (cacheColl w' = cacheColl w
     \<and> (\<exists>evs. trace w' = trace w @ evs \<and> list_all P evs))"
  by (auto simp: quietly_def newEvents_def prefix_def)

lemma quietly_refl: "reflp (quietly P)"
  by (simp add: reflp_def quietly_alt)

lemma quietly_trans: "transp (quietly P)"
  by (auto simp: transp_def quietly_alt)

lemma quietly_roundTrip: "keeps (quietly P) roundTrip"
  by (simp add: keeps_def roundTrip_def quietly_alt split: list.splits option.splits)

lemma quietly_dateNow: "keeps (quietly P) dateNow"
  by (simp add: keeps_def dateNow_def quietly_alt)

lemma quietly_construct: "P (NewScraper (length (scrapers w))) \<Longrightarrow> quietly P w (snd (construct plat w))"
  by (simp add: construct_def quietly_alt)

lemma quietly_invoke: "(\<And>r. P (ev r)) \<Longrightarrow> keeps (quietly P) (invoke c ev m)"
  by (simp add: keeps_def invoke_def quietly_alt split: prod.splits)

lemmas quietly_intros = keeps_intros quietly_refl quietly_trans quietly_roundTrip quietly_dateNow
  quietly_invoke

lemma quietly_construct_keeps:
  "(\<And>a. P (NewScraper a)) \<Longrightarrow> keeps (quietly P) (construct plat)"
  by (simp add: keeps_def construct_def quietly_alt)

lemma quietly_initMongoClient: "keeps (quietly P) initMongoClient"
  unfolding initMongoClient_def by (intro quietly_intros)

lemma quiet_saveCookies: "keeps (quietly (\<lambda>e. \<not> cacheEvent e)) (saveCookies u jar)"
  unfolding saveCookies_def
  by (intro quietly_intros quietly_initMongoClient; simp add: quietly_alt)

lemma quiet_setCookiesOnClient:
  "keeps (quietly (\<lambda>e. \<not> cacheEvent e)) (setCookiesOnClient plat c jar)"
  unfolding setCookiesOnClient_def Let_def by (intro quietly_intros; simp)

lemma quiet_probe: "keeps (quietly (\<lambda>e. \<not> cacheEvent e)) (probe plat c)"
  unfolding probe_def by (intro quietly_intros; simp)

lemma quiet_tryExistingClient: "keeps (quietly (\<lambda>e. \<not> cacheEvent e)) (tryExistingClient plat u)"
  unfolding tryExistingClient_def by (intro quietly_intros quiet_probe)

lemma quiet_tryPassedCookies:
  "keeps (quietly (\<lambda>e. \<not> cacheEvent e)) (tryPassedCookies plat c u jar)"
  unfolding tryPassedCookies_def
  by (intro quietly_intros quiet_probe quiet_setCookiesOnClient quiet_saveCookies;
      simp add: quietly_alt)

lemma quiet_tryInMemoryCookies:
  "keeps (quietly (\<lambda>e. \<not> cacheEvent e)) (tryInMemoryCookies plat c u)"
  unfolding tryInMemoryCookies_def
  by (intro quietly_intros quiet_probe quiet_setCookiesOnClient)

lemma quiet_tryMongoCookies:
  "keeps (quietly (\<lambda>e. \<not> cacheEvent e)) (tryMongoCookies plat c u)"
  unfolding tryMongoCookies_def findSession_def
  by (intro quietly_intros quiet_probe quiet_setCookiesOnClient quietly_initMongoClient;
      simp add: quietly_alt)

lemma quiet_tryFreshLogin:
  "keeps (quietly (\<lambda>e. \<not> cacheEvent e)) (tryFreshLogin plat c u p e t)"
  unfolding tryFreshLogin_def
  by (intro quietly_intros quiet_probe quiet_saveCookies; simp add: quietly_alt)

lemma quiet_saveClientAndReturn:
  "keeps (quietly (\<lambda>e. \<not> cacheEvent e)) (saveClientAndReturn u c)"
  unfolding saveClientAndReturn_def
  by (intro quietly_intros; simp add: quietly_alt)

lemma quiet_getClient: "keeps (quietly (\<lambda>e. \<not> cacheEvent e)) (getClient plat js credentials)"
  unfolding getClient_def Let_def
  by (intro quietly_intros quietly_construct_keeps quiet_tryExistingClient quiet_tryPassedCookies
        quiet_tryInMemoryCookies quiet_tryMongoCookies quiet_tryFreshLogin
        quiet_saveClientAndReturn; simp)

section \<open>Soft tier failures\<close>

lemma newEvents_append:
  "prefix (trace w) (trace w1) \<Longrightarrow> prefix (trace w1) (trace w2)
     \<Longrightarrow> newEvents w w2 = newEvents w w1 @ newEvents w1 w2"
  by (auto simp: newEvents_def prefix_def)

lemma newEvents_later:
  "grows w w1 \<Longrightarrow> grows w1 w2 \<Longrightarrow> e \<in> set (newEvents w1 w2) \<Longrightarrow> e \<in> set (newEvents w w2)"
  using newEvents_append [of w w1 w2] by (auto simp: grows_def)

lemma newEvents_earlier:
  "grows w w1 \<Longrightarrow> grows w1 w2 \<Longrightarrow> e \<in> set (newEvents w w1) \<Longrightarrow> e \<in> set (newEvents w w2)"
  using newEvents_append [of w w1 w2] by (auto simp: grows_def)

lemma grows_transD: "grows w w1 \<Longrightarrow> grows w1 w2 \<Longrightarrow> grows w w2"
  using grows_trans by (auto elim: transpE)

lemma grows_probe: "keeps grows (probe plat c)"
  unfolding probe_def by (rule grows_invoke)

lemma probe_True:
  "probe plat c w = (Inr True, w') \<Longrightarrow> Probe c True \<in> set (newEvents w w')"
  by (auto simp: probe_def invoke_def newEvents_def split: if_splits prod.splits)

text \<open>The shape shared by the tiers: probe, and go on only when it answered \<open>true\<close>.\<close>

lemma probe_then:
  assumes rest: "keeps grows rest"
    and run: "io_bind (probe plat c) (\<lambda>ok. if ok then rest else io_return False) w = (r, w')"
  shows "grows w w' \<and> (r = Inr True \<longrightarrow> Probe c True \<in> set (newEvents w w'))"
proof -
  obtain rp wp where p: "probe plat c w = (rp, wp)" by (cases "probe plat c w")
  have g1: "grows w wp" using grows_probe p by (rule keepsD)
  show ?thesis
  proof (cases "rp = Inr True")
    case True
    with p run have rr: "rest wp = (r, w')" by (simp add: io_bind_def)
    have g2: "grows wp w'" using rest rr by (rule keepsD)
    have "Probe c True \<in> set (newEvents w wp)" using p True probe_True by simp
    then show ?thesis using g1 g2 newEvents_earlier grows_transD by blast
  next
    case False
    with p run have "w' = wp \<and> r \<noteq> Inr True"
      by (cases rp) (auto simp: io_bind_def io_return_def)
    then show ?thesis using g1 by simp
  qed
qed

lemma after:
  assumes first: "keeps grows m"
    and cont: "\<And>x w1 r w'. f x w1 = (r, w') \<Longrightarrow>
                 grows w1 w' \<and> (r = Inr True \<longrightarrow> e \<in> set (newEvents w1 w'))"
    and run: "io_bind m f w = (r, w')"
  shows "grows w w' \<and> (r = Inr True \<longrightarrow> e \<in> set (newEvents w w'))"
proof -
  obtain rm wm where m: "m w = (rm, wm)" by (cases "m w")
  have g1: "grows w wm" using first m by (rule keepsD)
  show ?thesis
  proof (cases rm)
    case (Inl err)
    with m run have "w' = wm \<and> r = Inl err" by (simp add: io_bind_def)
    then show ?thesis using g1 by simp
  next
    case (Inr x)
    with m run have "f x wm = (r, w')" by (simp add: io_bind_def)
    from cont [OF this] show ?thesis using g1 newEvents_later grows_transD by blast
  qed
qed

lemma softly:
  assumes body: "\<And>r w'. m w = (r, w') \<Longrightarrow>
                 grows w w' \<and> (r = Inr True \<longrightarrow> e \<in> set (newEvents w w'))"
  shows "\<exists>b. fst (io_catch m (\<lambda>error. io_return False) w) = Inr b
           \<and> (b \<longrightarrow> e \<in> set (newEvents w (snd (io_catch m (\<lambda>error. io_return False) w))))"
proof -
  obtain r w' where m: "m w = (r, w')" by (cases "m w")
  from body [OF m] m show ?thesis
    by (cases r) (auto simp: io_catch_def io_return_def)
qed

lemma tryPassedCookies_soft:
  "\<exists>b. fst (tryPassedCookies plat c u jar w) = Inr b
     \<and> (b \<longrightarrow> Probe c True \<in> set (newEvents w (snd (tryPassedCookies plat c u jar w))))"
  unfolding tryPassedCookies_def
  apply (rule softly)
  apply (erule after [rotated 2])
   apply (rule grows_setCookiesOnClient)
  apply (erule probe_then [rotated 1])
  apply (intro grows_intros grows_saveCookies; simp add: grows_def)
  done

lemma returns_False:
  "io_return False w = (r, w') \<Longrightarrow> grows w w' \<and> (r = Inr True \<longrightarrow> e \<in> set (newEvents w w'))"
  by (auto simp: io_return_def grows_def)

lemma tryExistingClient_soft:
  "\<exists>b. fst (tryExistingClient plat u w) = Inr b
     \<and> (b \<longrightarrow> (\<exists>c. instances w u = Some c
            \<and> Probe c True \<in> set (newEvents w (snd (tryExistingClient plat u w)))))"
proof (cases "instances w u")
  case None
  then show ?thesis by (auto simp: tryExistingClient_def io_defs)
next
  case (Some c)
  have "\<exists>b. fst (io_catch (io_bind (probe plat c) (\<lambda>ok. if ok then io_return True else io_return False))
                    (\<lambda>error. io_return False) w) = Inr b
     \<and> (b \<longrightarrow> Probe c True \<in> set (newEvents w
            (snd (io_catch (io_bind (probe plat c) (\<lambda>ok. if ok then io_return True else io_return False))
                    (\<lambda>error. io_return False) w))))"
    apply (rule softly)
    apply (erule probe_then [rotated 1])
    apply (intro grows_intros)
    done
  then show ?thesis using Some by (simp add: tryExistingClient_def io_bind_def io_get_def)
qed

lemma tryInMemoryCookies_soft:
  "\<exists>b. fst (tryInMemoryCookies plat c u w) = Inr b
     \<and> (b \<longrightarrow> Probe c True \<in> set (newEvents w (snd (tryInMemoryCookies plat c u w))))"
proof (cases "cookies w u")
  case None
  then show ?thesis by (auto simp: tryInMemoryCookies_def io_defs)
next
  case (Some jar)
  have "\<exists>b. fst (io_catch (io_bind (setCookiesOnClient plat c jar) (\<lambda>_.
                      io_bind (probe plat c) (\<lambda>ok. if ok then io_return True else io_return False)))
                    (\<lambda>error. io_return False) w) = Inr b
     \<and> (b \<longrightarrow> Probe c True \<in> set (newEvents w
            (snd (io_catch (io_bind (setCookiesOnClient plat c jar) (\<lambda>_.
                      io_bind (probe plat c) (\<lambda>ok. if ok then io_return True else io_return False)))
                    (\<lambda>error. io_return False) w))))"
    apply (rule softly)
    apply (erule after [rotated 2])
     apply (rule grows_setCookiesOnClient)
    apply (erule probe_then [rotated 1])
    apply (intro grows_intros)
    done
  then show ?thesis using Some by (simp add: tryInMemoryCookies_def io_bind_def io_get_def)
qed

lemma grows_findSession: "keeps grows (findSession u)"
  unfolding findSession_def by (intro grows_intros)

lemma tryMongoCookies_soft:
  "\<exists>b. fst (tryMongoCookies plat c u w) = Inr b
     \<and> (b \<longrightarrow> Probe c True \<in> set (newEvents w (snd (tryMongoCookies plat c u w))))"
  unfolding tryMongoCookies_def
  apply (rule softly)
  apply (erule after [rotated 2])
   apply (rule grows_initMongoClient)
  apply (erule after [rotated 2])
   apply (rule grows_findSession)
  subgoal for r w' x w1 ra w'a xa w1a rb w'b
    apply (cases xa)
     apply (simp add: returns_False)
    apply simp
    apply (erule after [rotated 2])
     apply (rule grows_setCookiesOnClient)
    apply (erule probe_then [rotated 1])
    apply (intro grows_intros; simp add: grows_def)
    done
  done

lemma tryFreshLogin_login:
  assumes "c < length (scrapers w)"
  shows "Login c u \<in> set (newEvents w (snd (tryFreshLogin plat c u p e t w)))"
proof -
  let ?login = "invoke c (\<lambda>_. Login c u) (login plat u p e t)"
  let ?rest = "\<lambda>_ :: unit. io_bind (probe plat c) (\<lambda>ok.
          if ok then
            io_bind (invoke c (\<lambda>_. GetCookies c) (getCookies plat)) (\<lambda>newCookies.
            io_bind (saveCookies u newCookies) (\<lambda>_.
            io_bind (io_modify (\<lambda>w. w\<lparr>cookies := (cookies w)(u \<mapsto> newCookies)\<rparr>)) (\<lambda>_.
            io_return True)))
          else io_return False)"
  have eq: "tryFreshLogin plat c u p e t = io_bind ?login ?rest"
    unfolding tryFreshLogin_def by (rule io_catch_rethrow)
  obtain r1 w1 where l: "?login w = (r1, w1)" by (cases "?login w")
  have ev: "Login c u \<in> set (newEvents w w1)"
    using l assms by (auto simp: invoke_def newEvents_def split: prod.splits)
  have g1: "grows w w1" using grows_invoke l by (rule keepsD)
  have rest: "keeps grows (?rest ())"
    unfolding probe_def by (intro grows_intros grows_saveCookies; simp add: grows_def)
  show ?thesis
  proof (cases r1)
    case (Inl err)
    then show ?thesis using l ev by (simp add: eq io_bind_def)
  next
    case (Inr x)
    obtain r2 w2 where r: "?rest () w1 = (r2, w2)" by (cases "?rest () w1")
    have g2: "grows w1 w2" using rest r by (rule keepsD)
    have "snd (tryFreshLogin plat c u p e t w) = w2"
      using l Inr r by (simp add: eq io_bind_def)
    then show ?thesis using ev g1 g2 newEvents_earlier by metis
  qed
qed


lemma soft_result:
  assumes "\<exists>b. fst (m w) = Inr b \<and> Q b"
  obtains b w' where "m w = (Inr b, w')"
  using assms by (cases "m w") auto

lemma getClient_cascade:
  assumes t1: "tryExistingClient plat (username cr) w = (Inr b1, w1)"
    and con: "construct plat w1 = (Inr c, w2)"
    and t2: "(case cred_cookies cr of None \<Rightarrow> io_return False
              | Some jar \<Rightarrow> tryPassedCookies plat c (username cr) jar) w2 = (Inr b2, w3)"
    and t3: "tryInMemoryCookies plat c (username cr) w3 = (Inr b3, w4)"
    and t4: "tryMongoCookies plat c (username cr) w4 = (Inr b4, w5)"
    and t5: "tryFreshLogin plat c (username cr) (password cr) (email cr) (twoFactorSecret cr) w5
               = (r5, w6)"
  shows "getClient plat js cr w =
     (if b1 then (Inr (instances w1 (username cr)), w1)
      else if b2 then saveClientAndReturn (username cr) c w3
      else if b3 then saveClientAndReturn (username cr) c w4
      else if b4 then saveClientAndReturn (username cr) c w5
      else (case r5 of
              Inl e \<Rightarrow> (Inl (authenticationFailure js (Some e)), w6)
            | Inr fresh \<Rightarrow> if fresh then saveClientAndReturn (username cr) c w6
                           else (Inl (authenticationFailure js None), w6)))"
  unfolding getClient_def Let_def io_catch_rethrow
  by (simp add: io_bind_def io_catch_def io_get_def io_return_def io_throw_def t1 con t2 t3 t4 t5
      split: sum.splits)

lemma saveClientAndReturn_result: "fst (saveClientAndReturn u c v) = Inr (Some c)"
  by (simp add: saveClientAndReturn_def io_defs)

lemma getClient_failure:
  assumes fails: "fst (getClient plat js cr w) = Inl err"
  shows "(\<exists>lastError. err = authenticationFailure js lastError)
     \<and> (\<exists>c. Login c (username cr) \<in> set (newEvents w (snd (getClient plat js cr w))))"
proof -
  let ?u = "username cr"
  obtain b1 w1 where t1: "tryExistingClient plat ?u w = (Inr b1, w1)"
    using tryExistingClient_soft [of plat ?u w] by (rule soft_result)
  obtain c w2 where con: "construct plat w1 = (Inr c, w2)" and c: "c < length (scrapers w2)"
    by (simp add: construct_def)
  let ?t2 = "case cred_cookies cr of None \<Rightarrow> io_return False
             | Some jar \<Rightarrow> tryPassedCookies plat c ?u jar"
  have "\<exists>b. fst (?t2 w2) = Inr b \<and> True"
    using tryPassedCookies_soft [of plat c ?u _ w2]
    by (cases "cred_cookies cr") (auto simp: io_return_def)
  then obtain b2 w3 where t2: "?t2 w2 = (Inr b2, w3)" by (rule soft_result)
  obtain b3 w4 where t3: "tryInMemoryCookies plat c ?u w3 = (Inr b3, w4)"
    using tryInMemoryCookies_soft [of plat c ?u w3] by (rule soft_result)
  obtain b4 w5 where t4: "tryMongoCookies plat c ?u w4 = (Inr b4, w5)"
    using tryMongoCookies_soft [of plat c ?u w4] by (rule soft_result)
  obtain r5 w6 where t5: "tryFreshLogin plat c ?u (password cr) (email cr) (twoFactorSecret cr) w5
      = (r5, w6)"
    by (cases "tryFreshLogin plat c ?u (password cr) (email cr) (twoFactorSecret cr) w5")
  have g1: "grows w w1" using grows_tryExistingClient t1 by (rule keepsD)
  have g2: "grows w1 w2" using grows_construct con by (rule keepsD)
  have "keeps grows ?t2"
    by (intro grows_intros grows_tryPassedCookies)
  then have g3: "grows w2 w3" using t2 by (rule keepsD)
  have g4: "grows w3 w4" using grows_tryInMemoryCookies t3 by (rule keepsD)
  have g5: "grows w4 w5" using grows_tryMongoCookies t4 by (rule keepsD)
  have g6: "grows w5 w6" using grows_tryFreshLogin t5 by (rule keepsD)
  have g05: "grows w w5" using g1 g2 g3 g4 g5 grows_transD by blast
  have "c < length (scrapers w5)"
    using c g3 g4 g5 by (simp add: grows_def)
  then have "Login c ?u \<in> set (newEvents w5 w6)"
    using tryFreshLogin_login [of c w5 ?u plat "password cr" "email cr" "twoFactorSecret cr"] t5
    by simp
  then have login: "Login c ?u \<in> set (newEvents w w6)"
    using g05 g6 newEvents_later by blast
  note run = getClient_cascade [OF t1 con t2 t3 t4 t5, of js]
  from fails have path: "\<not> b1 \<and> \<not> b2 \<and> \<not> b3 \<and> \<not> b4"
    unfolding run by (auto simp: saveClientAndReturn_result split: if_splits)
  show ?thesis
  proof (cases r5)
    case (Inl e)
    with fails path login show ?thesis unfolding run by auto
  next
    case (Inr fresh)
    with fails path login show ?thesis
      unfolding run by (cases fresh) (auto simp: saveClientAndReturn_result)
  qed
qed

subsection \<open>What each helper returns\<close>

lemma saveCookies_ok:
  assumes "storeUp (Suc (Suc n)) w"
  shows "saveCookies u jar w
     = (Inr (), w\<lparr>faults := tl (tl (faults w)),
                   ticks := Suc (ticks w),
                   cookieColl := (cookieColl w)(u \<mapsto>
                     \<lparr>doc_cookies = jar, updatedAt = clock w (ticks w)\<rparr>),
                   trace := trace w @ [SessionUpsert u]\<rparr>)"
proof -
  let ?w2 = "w\<lparr>faults := tl (faults w), ticks := Suc (ticks w)\<rparr>"
  have up: "list_all (\<lambda>f. f = None) (take (Suc 0) (faults w))"
    "list_all (\<lambda>f. f = None) (take (Suc 0) (tl (faults w)))"
    using assms by (simp_all add: storeUp_Suc)
  from up roundTrip_cases [of w] roundTrip_cases [of ?w2]
  show ?thesis
    by (auto simp: saveCookies_def initMongoClient_def dateNow_def io_defs)
qed

lemma saveCookies_effect:
  "cookieColl (snd (saveCookies u jar w)) = cookieColl w
   \<or> cookieColl (snd (saveCookies u jar w))
       = (cookieColl w)(u \<mapsto> \<lparr>doc_cookies = jar, updatedAt = clock w (ticks w)\<rparr>)"
proof -
  let ?w2 = "w\<lparr>faults := tl (faults w), ticks := Suc (ticks w)\<rparr>"
  from roundTrip_cases [of w] roundTrip_cases [of ?w2]
  show ?thesis
    by (auto simp: saveCookies_def initMongoClient_def dateNow_def io_defs)
qed

lemma tryPassedCookies_ok:
  assumes "c < length (scrapers w)"
    and "setCookies plat (map cookieString jar) (scrapers w ! c) = (Inr (), s1)"
    and "isLoggedIn plat s1 = (Inr True, s2)"
    and "storeUp 2 w"
  shows "tryPassedCookies plat c u jar w
     = (Inr True, w\<lparr>scrapers := (scrapers w)[c := s2],
                     cookies := (cookies w)(u \<mapsto> jar),
                     cookieColl := (cookieColl w)(u \<mapsto>
                       \<lparr>doc_cookies = jar, updatedAt = clock w (ticks w)\<rparr>),
                     faults := tl (tl (faults w)),
                     ticks := Suc (ticks w),
                     trace := trace w @ [SetCookies c (map cookieString jar), Probe c True,
                                         SessionUpsert u]\<rparr>)"
proof -
  let ?w2 = "w\<lparr>scrapers := (scrapers w)[c := s2],
      trace := trace w @ [SetCookies c (map cookieString jar), Probe c True]\<rparr>"
  have "storeUp (Suc (Suc 0)) ?w2" using assms(4) by (simp add: storeUp_def numeral_2_eq_2)
  from saveCookies_ok [OF this, of u jar] assms(1-3)
  show ?thesis
    by (simp add: tryPassedCookies_def setCookiesOnClient_def probe_def invoke_def io_defs Let_def)
qed

lemma saveCookies_down:
  assumes "\<not> storeUp 2 w"
  shows "\<exists>e. saveCookies u jar w
     = (Inl e, w\<lparr>faults := (if hd (faults w) = None then tl (tl (faults w)) else tl (faults w)),
                  ticks := (if hd (faults w) = None then Suc (ticks w) else ticks w)\<rparr>)"
proof (cases "faults w")
  case Nil
  then show ?thesis using assms by (simp add: storeUp_def)
next
  case (Cons a fs)
  show ?thesis
  proof (cases a)
    case (Some m)
    then show ?thesis using Cons
      by (simp add: saveCookies_def initMongoClient_def roundTrip_def io_defs)
  next
    case None
    then obtain m fs' where fs: "fs = Some m # fs'"
      using assms Cons by (cases fs; cases "hd fs") (auto simp: storeUp_def numeral_2_eq_2)
    then show ?thesis using Cons None
      by (simp add: saveCookies_def initMongoClient_def roundTrip_def dateNow_def io_defs)
  qed
qed

lemma tryExistingClient_result:
  "fst (tryExistingClient plat u w)
     = Inr (case instances w u of
              None \<Rightarrow> False
            | Some h \<Rightarrow> h < length (scrapers w) \<and> fst (isLoggedIn plat (scrapers w ! h)) = Inr True)"
proof (cases "instances w u")
  case None
  then show ?thesis by (simp add: tryExistingClient_def io_defs)
next
  case (Some h)
  obtain r s where p: "isLoggedIn plat (scrapers w ! h) = (r, s)"
    by (cases "isLoggedIn plat (scrapers w ! h)")
  show ?thesis using Some p
    by (cases r) (auto simp: tryExistingClient_def probe_def invoke_def io_defs)
qed

lemma tryInMemoryCookies_result:
  "fst (tryInMemoryCookies plat c u w)
     = Inr (case cookies w u of
              None \<Rightarrow> False
            | Some jar \<Rightarrow> c < length (scrapers w)
                \<and> fst (setCookies plat (map cookieString jar) (scrapers w ! c)) = Inr ()
                \<and> fst (isLoggedIn plat (snd (setCookies plat (map cookieString jar)
                                               (scrapers w ! c)))) = Inr True)"
proof (cases "cookies w u")
  case None
  then show ?thesis by (simp add: tryInMemoryCookies_def io_defs)
next
  case (Some jar)
  obtain r1 s1 where sc: "setCookies plat (map cookieString jar) (scrapers w ! c) = (r1, s1)"
    by (cases "setCookies plat (map cookieString jar) (scrapers w ! c)")
  obtain r2 s2 where pr: "isLoggedIn plat s1 = (r2, s2)"
    by (cases "isLoggedIn plat s1")
  show ?thesis using Some sc pr
    by (cases r1; cases r2)
       (auto simp: tryInMemoryCookies_def setCookiesOnClient_def probe_def invoke_def io_defs Let_def)
qed

lemma tryPassedCookies_result:
  "fst (tryPassedCookies plat c u jar w)
     = Inr (c < length (scrapers w)
            \<and> fst (setCookies plat (map cookieString jar) (scrapers w ! c)) = Inr ()
            \<and> fst (isLoggedIn plat (snd (setCookies plat (map cookieString jar)
                                           (scrapers w ! c)))) = Inr True
            \<and> storeUp 2 w)"
proof -
  obtain r1 s1 where sc: "setCookies plat (map cookieString jar) (scrapers w ! c) = (r1, s1)"
    by (cases "setCookies plat (map cookieString jar) (scrapers w ! c)")
  obtain r2 s2 where pr: "isLoggedIn plat s1 = (r2, s2)"
    by (cases "isLoggedIn plat s1")
  let ?w2 = "w\<lparr>scrapers := (scrapers w)[c := s2],
      trace := trace w @ [SetCookies c (map cookieString jar), Probe c True]\<rparr>"
  show ?thesis
  proof (cases "c < length (scrapers w) \<and> r1 = Inr () \<and> r2 = Inr True")
    case False
    then show ?thesis using sc pr
      by (cases r1; cases r2)
         (auto simp: tryPassedCookies_def setCookiesOnClient_def probe_def invoke_def io_defs Let_def)
  next
    case True
    show ?thesis
    proof (cases "storeUp 2 w")
      case up: True
      from True have a: "c < length (scrapers w)"
        and b: "setCookies plat (map cookieString jar) (scrapers w ! c) = (Inr (), s1)"
        and d: "isLoggedIn plat s1 = (Inr True, s2)" using sc pr by simp_all
      show ?thesis using tryPassedCookies_ok [OF a b d up, of u] True sc pr up by simp
    next
      case down: False
      then have "\<not> storeUp 2 ?w2" by (simp add: storeUp_def)
      from saveCookies_down [OF this, of u jar] obtain e ws where "saveCookies u jar ?w2 = (Inl e, ws)"
        by blast
      then show ?thesis using True sc pr down
        by (simp add: tryPassedCookies_def setCookiesOnClient_def probe_def invoke_def io_defs Let_def)
    qed
  qed
qed

lemma tryMongoCookies_result:
  "fst (tryMongoCookies plat c u w)
     = Inr (storeUp 2 w
            \<and> (case cookieColl w u of
                 None \<Rightarrow> False
               | Some doc \<Rightarrow> c < length (scrapers w)
                   \<and> fst (setCookies plat (map cookieString (doc_cookies doc)) (scrapers w ! c)) = Inr ()
                   \<and> fst (isLoggedIn plat (snd (setCookies plat (map cookieString (doc_cookies doc))
                                                  (scrapers w ! c)))) = Inr True))"
proof -
  let ?w1 = "w\<lparr>faults := tl (faults w)\<rparr>"
  let ?w2 = "w\<lparr>faults := tl (tl (faults w))\<rparr>"
  have two: "storeUp 2 w = (list_all (\<lambda>f. f = None) (take (Suc 0) (faults w))
      \<and> list_all (\<lambda>f. f = None) (take (Suc 0) (tl (faults w))))"
    by (simp add: storeUp_def numeral_2_eq_2 take_Suc_tl [of _ "Suc 0"])
  show ?thesis
  proof (cases "cookieColl w u")
    case None
    from roundTrip_cases [of w] roundTrip_cases [of ?w1] None two
    show ?thesis
      by (auto simp: tryMongoCookies_def initMongoClient_def findSession_def io_defs)
  next
    case (Some doc)
    obtain r1 s1 where sc: "setCookies plat (map cookieString (doc_cookies doc)) (scrapers w ! c) = (r1, s1)"
      by (cases "setCookies plat (map cookieString (doc_cookies doc)) (scrapers w ! c)")
    obtain r2 s2 where pr: "isLoggedIn plat s1 = (r2, s2)"
      by (cases "isLoggedIn plat s1")
    from roundTrip_cases [of w] roundTrip_cases [of ?w1] Some two sc pr
    show ?thesis
      by (cases r1; cases r2)
         (auto simp: tryMongoCookies_def initMongoClient_def findSession_def setCookiesOnClient_def
            probe_def invoke_def io_defs Let_def)
  qed
qed


lemma getClient_tiers:
  "getClient plat js cr w =
     (case tryExistingClient plat (username cr) w of (r1, w1) \<Rightarrow>
      if r1 = Inr True then (Inr (instances w1 (username cr)), w1)
      else
      (case construct plat w1 of (rc, w2) \<Rightarrow>
      (case (case cred_cookies cr of
               None \<Rightarrow> (Inr False, w2)
             | Some jar \<Rightarrow> tryPassedCookies plat (length (scrapers w1)) (username cr) jar w2)
       of (r2, w3) \<Rightarrow>
      if r2 = Inr True then saveClientAndReturn (username cr) (length (scrapers w1)) w3
      else
      (case tryInMemoryCookies plat (length (scrapers w1)) (username cr) w3 of (r3, w4) \<Rightarrow>
      if r3 = Inr True then saveClientAndReturn (username cr) (length (scrapers w1)) w4
      else
      (case tryMongoCookies plat (length (scrapers w1)) (username cr) w4 of (r4, w5) \<Rightarrow>
      if r4 = Inr True then saveClientAndReturn (username cr) (length (scrapers w1)) w5
      else
      (case tryFreshLogin plat (length (scrapers w1)) (username cr) (password cr) (email cr)
              (twoFactorSecret cr) w5 of (r5, w6) \<Rightarrow>
      (case r5 of
         Inl e \<Rightarrow> (Inl (authenticationFailure js (Some e)), w6)
       | Inr fresh \<Rightarrow> if fresh then saveClientAndReturn (username cr) (length (scrapers w1)) w6
                      else (Inl (authenticationFailure js None), w6))))))))"
proof -
  let ?u = "username cr"
  obtain b1 w1 where t1: "tryExistingClient plat ?u w = (Inr b1, w1)"
    using tryExistingClient_soft [of plat ?u w] by (rule soft_result)
  let ?c = "length (scrapers w1)"
  obtain w2 where con: "construct plat w1 = (Inr ?c, w2)"
    by (simp add: construct_def)
  let ?t2 = "case cred_cookies cr of None \<Rightarrow> io_return False
             | Some jar \<Rightarrow> tryPassedCookies plat ?c ?u jar"
  have "\<exists>b. fst (?t2 w2) = Inr b \<and> True"
    using tryPassedCookies_soft [of plat ?c ?u _ w2]
    by (cases "cred_cookies cr") (auto simp: io_return_def)
  then obtain b2 w3 where t2: "?t2 w2 = (Inr b2, w3)" by (rule soft_result)
  obtain b3 w4 where t3: "tryInMemoryCookies plat ?c ?u w3 = (Inr b3, w4)"
    using tryInMemoryCookies_soft [of plat ?c ?u w3] by (rule soft_result)
  obtain b4 w5 where t4: "tryMongoCookies plat ?c ?u w4 = (Inr b4, w5)"
    using tryMongoCookies_soft [of plat ?c ?u w4] by (rule soft_result)
  obtain r5 w6 where t5: "tryFreshLogin plat ?c ?u (password cr) (email cr) (twoFactorSecret cr) w5
      = (r5, w6)"
    by (cases "tryFreshLogin plat ?c ?u (password cr) (email cr) (twoFactorSecret cr) w5")
  have t2': "(case cred_cookies cr of None \<Rightarrow> (Inr False, w2)
              | Some jar \<Rightarrow> tryPassedCookies plat ?c ?u jar w2) = (Inr b2, w3)"
    using t2 by (cases "cred_cookies cr") (simp_all add: io_return_def)
  note run = getClient_cascade [OF t1 con t2 t3 t4 t5, of js]
  show ?thesis
    unfolding run by (simp add: t1 con t2' t3 t4 t5)
qed


text \<open>
  C7. The helpers of tiers 1 to 4 never throw, whatever the Scraper and the database do:
  each returns a boolean, and \<open>true\<close> only when the probe of the handle answered \<open>true\<close>
  during the call. The boolean is \<open>true\<close> exactly when every step of the helper succeeded:
  a missing handle or jar, a Scraper call that throws, a probe that does not answer
  \<open>true\<close>, a database round trip that fails (for tier 2 also the one of \<open>saveCookies\<close>,
  after a probe that answered \<open>true\<close>) give \<open>false\<close>. \<open>getClient\<close> runs the tiers in order,
  each in the state the previous one left, and goes on to the next tier whenever a helper
  did not return \<open>true\<close>; the only errors it throws are the ones built on line 88 after
  \<open>tryFreshLogin\<close>, and then \<open>login\<close> was invoked during the call.
\<close>

theorem soft_tier_failures:
  "(\<exists>b. fst (tryExistingClient plat u w) = Inr b
       \<and> (b \<longrightarrow> (\<exists>h. instances w u = Some h
              \<and> Probe h True \<in> set (newEvents w (snd (tryExistingClient plat u w))))))
   \<and> (\<exists>b. fst (tryPassedCookies plat c u jar w) = Inr b
       \<and> (b \<longrightarrow> Probe c True \<in> set (newEvents w (snd (tryPassedCookies plat c u jar w)))))
   \<and> (\<exists>b. fst (tryInMemoryCookies plat c u w) = Inr b
       \<and> (b \<longrightarrow> Probe c True \<in> set (newEvents w (snd (tryInMemoryCookies plat c u w)))))
   \<and> (\<exists>b. fst (tryMongoCookies plat c u w) = Inr b
       \<and> (b \<longrightarrow> Probe c True \<in> set (newEvents w (snd (tryMongoCookies plat c u w)))))
   \<and> (\<forall>err. fst (getClient plat js cr w) = Inl err \<longrightarrow>
         (\<exists>lastError. err = authenticationFailure js lastError)
         \<and> (\<exists>a. Login a (username cr) \<in> set (newEvents w (snd (getClient plat js cr w)))))
   \<and> fst (tryExistingClient plat u w)
       = Inr (case instances w u of
                None \<Rightarrow> False
              | Some h \<Rightarrow> h < length (scrapers w)
                  \<and> fst (isLoggedIn plat (scrapers w ! h)) = Inr True)
   \<and> fst (tryPassedCookies plat c u jar w)
       = Inr (c < length (scrapers w)
              \<and> fst (setCookies plat (map cookieString jar) (scrapers w ! c)) = Inr ()
              \<and> fst (isLoggedIn plat (snd (setCookies plat (map cookieString jar)
                                             (scrapers w ! c)))) = Inr True
              \<and> storeUp 2 w)
   \<and> fst (tryInMemoryCookies plat c u w)
       = Inr (case cookies w u of
                None \<Rightarrow> False
              | Some held \<Rightarrow> c < length (scrapers w)
                  \<and> fst (setCookies plat (map cookieString held) (scrapers w ! c)) = Inr ()
                  \<and> fst (isLoggedIn plat (snd (setCookies plat (map cookieString held)
                                                 (scrapers w ! c)))) = Inr True)
   \<and> fst (tryMongoCookies plat c u w)
       = Inr (storeUp 2 w
              \<and> (case cookieColl w u of
                   None \<Rightarrow> False
                 | Some doc \<Rightarrow> c < length (scrapers w)
                     \<and> fst (setCookies plat (map cookieString (doc_cookies doc)) (scrapers w ! c))
                         = Inr ()
                     \<and> fst (isLoggedIn plat (snd (setCookies plat (map cookieString (doc_cookies doc))
                                                    (scrapers w ! c)))) = Inr True))
   \<and> getClient plat js cr w =
     (case tryExistingClient plat (username cr) w of (r1, w1) \<Rightarrow>
      if r1 = Inr True then (Inr (instances w1 (username cr)), w1)
      else
      (case construct plat w1 of (rc, w2) \<Rightarrow>
      (case (case cred_cookies cr of
               None \<Rightarrow> (Inr False, w2)
             | Some jar \<Rightarrow> tryPassedCookies plat (length (scrapers w1)) (username cr) jar w2)
       of (r2, w3) \<Rightarrow>
      if r2 = Inr True then saveClientAndReturn (username cr) (length (scrapers w1)) w3
      else
      (case tryInMemoryCookies plat (length (scrapers w1)) (username cr) w3 of (r3, w4) \<Rightarrow>
      if r3 = Inr True then saveClientAndReturn (username cr) (length (scrapers w1)) w4
      else
      (case tryMongoCookies plat (length (scrapers w1)) (username cr) w4 of (r4, w5) \<Rightarrow>
      if r4 = Inr True then saveClientAndReturn (username cr) (length (scrapers w1)) w5
      else
      (case tryFreshLogin plat (length (scrapers w1)) (username cr) (password cr) (email cr)
              (twoFactorSecret cr) w5 of (r5, w6) \<Rightarrow>
      (case r5 of
         Inl e \<Rightarrow> (Inl (authenticationFailure js (Some e)), w6)
       | Inr fresh \<Rightarrow> if fresh then saveClientAndReturn (username cr) (length (scrapers w1)) w6
                      else (Inl (authenticationFailure js None), w6))))))))"
proof (intro conjI allI impI)
  show "\<exists>b. fst (tryExistingClient plat u w) = Inr b
       \<and> (b \<longrightarrow> (\<exists>h. instances w u = Some h
              \<and> Probe h True \<in> set (newEvents w (snd (tryExistingClient plat u w)))))"
    by (rule tryExistingClient_soft)
  show "\<exists>b. fst (tryPassedCookies plat c u jar w) = Inr b
       \<and> (b \<longrightarrow> Probe c True \<in> set (newEvents w (snd (tryPassedCookies plat c u jar w))))"
    by (rule tryPassedCookies_soft)
  show "\<exists>b. fst (tryInMemoryCookies plat c u w) = Inr b
       \<and> (b \<longrightarrow> Probe c True \<in> set (newEvents w (snd (tryInMemoryCookies plat c u w))))"
    by (rule tryInMemoryCookies_soft)
  show "\<exists>b. fst (tryMongoCookies plat c u w) = Inr b
       \<and> (b \<longrightarrow> Probe c True \<in> set (newEvents w (snd (tryMongoCookies plat c u w))))"
    by (rule tryMongoCookies_soft)
  show "fst (tryExistingClient plat u w)
       = Inr (case instances w u of
                None \<Rightarrow> False
              | Some h \<Rightarrow> h < length (scrapers w)
                  \<and> fst (isLoggedIn plat (scrapers w ! h)) = Inr True)"
    by (rule tryExistingClient_result)
  show "fst (tryPassedCookies plat c u jar w)
       = Inr (c < length (scrapers w)
              \<and> fst (setCookies plat (map cookieString jar) (scrapers w ! c)) = Inr ()
              \<and> fst (isLoggedIn plat (snd (setCookies plat (map cookieString jar)
                                             (scrapers w ! c)))) = Inr True
              \<and> storeUp 2 w)"
    by (rule tryPassedCookies_result)
  show "fst (tryInMemoryCookies plat c u w)
       = Inr (case cookies w u of
                None \<Rightarrow> False
              | Some held \<Rightarrow> c < length (scrapers w)
                  \<and> fst (setCookies plat (map cookieString held) (scrapers w ! c)) = Inr ()
                  \<and> fst (isLoggedIn plat (snd (setCookies plat (map cookieString held)
                                                 (scrapers w ! c)))) = Inr True)"
    by (rule tryInMemoryCookies_result)
  show "fst (tryMongoCookies plat c u w)
       = Inr (storeUp 2 w
              \<and> (case cookieColl w u of
                   None \<Rightarrow> False
                 | Some doc \<Rightarrow> c < length (scrapers w)
                     \<and> fst (setCookies plat (map cookieString (doc_cookies doc)) (scrapers w ! c))
                         = Inr ()
                     \<and> fst (isLoggedIn plat (snd (setCookies plat (map cookieString (doc_cookies doc))
                                                    (scrapers w ! c)))) = Inr True))"
    by (rule tryMongoCookies_result)
  show "getClient plat js cr w =
     (case tryExistingClient plat (username cr) w of (r1, w1) \<Rightarrow>
      if r1 = Inr True then (Inr (instances w1 (username cr)), w1)
      else
      (case construct plat w1 of (rc, w2) \<Rightarrow>
      (case (case cred_cookies cr of
               None \<Rightarrow> (Inr False, w2)
             | Some jar \<Rightarrow> tryPassedCookies plat (length (scrapers w1)) (username cr) jar w2)
       of (r2, w3) \<Rightarrow>
      if r2 = Inr True then saveClientAndReturn (username cr) (length (scrapers w1)) w3
      else
      (case tryInMemoryCookies plat (length (scrapers w1)) (username cr) w3 of (r3, w4) \<Rightarrow>
      if r3 = Inr True then saveClientAndReturn (username cr) (length (scrapers w1)) w4
      else
      (case tryMongoCookies plat (length (scrapers w1)) (username cr) w4 of (r4, w5) \<Rightarrow>
      if r4 = Inr True then saveClientAndReturn (username cr) (length (scrapers w1)) w5
      else
      (case tryFreshLogin plat (length (scrapers w1)) (username cr) (password cr) (email cr)
              (twoFactorSecret cr) w5 of (r5, w6) \<Rightarrow>
      (case r5 of
         Inl e \<Rightarrow> (Inl (authenticationFailure js (Some e)), w6)
       | Inr fresh \<Rightarrow> if fresh then saveClientAndReturn (username cr) (length (scrapers w1)) w6
                      else (Inl (authenticationFailure js None), w6))))))))"
    by (rule getClient_tiers)
next
  fix err assume "fst (getClient plat js cr w) = Inl err"
  then show "\<exists>lastError. err = authenticationFailure js lastError"
    by (rule getClient_failure [THEN conjunct1])
next
  fix err assume "fst (getClient plat js cr w) = Inl err"
  then show "\<exists>a. Login a (username cr) \<in> set (newEvents w (snd (getClient plat js cr w)))"
    by (rule getClient_failure [THEN conjunct2])
qed

theorem soft_tier_failures_witness:
  "fst (tryPassedCookies (stubPlatform aliceStrings (Inl (Error ''boom'')) [] Never) 0 ''alice''
          [aliceCookie] afterFailure) = Inr True
   \<and> Probe 0 True \<in> set (newEvents afterFailure
        (snd (tryPassedCookies (stubPlatform aliceStrings (Inl (Error ''boom'')) [] Never) 0 ''alice''
          [aliceCookie] afterFailure)))
   \<and> fst (getClient (stubPlatform aliceStrings (Inl (Error ''boom'')) [] Never) stubJs alice
          afterFailure) = Inl (Error ''Failed to authenticate: boom'')
   \<and> (\<exists>lastError. Error ''Failed to authenticate: boom'' = authenticationFailure stubJs lastError)
   \<and> (\<exists>a. Login a (username alice) \<in> set (newEvents afterFailure
        (snd (getClient (stubPlatform aliceStrings (Inl (Error ''boom'')) [] Never) stubJs alice
          afterFailure))))
   \<and> fst (tryExistingClient (stubPlatform aliceStrings (Inl (Error ''boom'')) [] Never) ''alice''
          ((aliceWorld [''stale''])\<lparr>faults := [Some ''ECONNREFUSED'']\<rparr>)) = Inr False
   \<and> fst (isLoggedIn (stubPlatform aliceStrings (Inl (Error ''boom'')) [] Never)
            (snd (setCookies (stubPlatform aliceStrings (Inl (Error ''boom'')) [] Never)
                    (map cookieString [aliceCookie]) [''stale'']))) = Inr True
   \<and> fst (tryPassedCookies (stubPlatform aliceStrings (Inl (Error ''boom'')) [] Never) 0 ''alice''
          [aliceCookie] ((aliceWorld [''stale''])\<lparr>faults := [Some ''ECONNREFUSED'']\<rparr>)) = Inr False
   \<and> fst (tryMongoCookies (stubPlatform aliceStrings (Inl (Error ''boom'')) [] Never) 0 ''alice''
          ((aliceWorld [''stale''])\<lparr>faults := [Some ''ECONNREFUSED'']\<rparr>)) = Inr False
   \<and> fst (tryInMemoryCookies (stubPlatform aliceStrings (Inl (Error ''boom'')) [] Never) 0 ''alice''
          ((aliceWorld [''stale''])\<lparr>faults := [Some ''ECONNREFUSED'']\<rparr>)) = Inr True
   \<and> fst (getClient (stubPlatform aliceStrings (Inl (Error ''boom'')) [] Never) stubJs aliceWithJar
          ((aliceWorld [''stale''])\<lparr>faults := [Some ''ECONNREFUSED'']\<rparr>)) = Inr (Some 1)
   \<and> trace (snd (getClient (stubPlatform aliceStrings (Inl (Error ''boom'')) [] Never) stubJs
          aliceWithJar ((aliceWorld [''stale''])\<lparr>faults := [Some ''ECONNREFUSED'']\<rparr>)))
       = [Probe 0 False, NewScraper 1, SetCookies 1 aliceStrings, Probe 1 True,
          SetCookies 1 aliceStrings, Probe 1 True]"
proof -
  let ?plat = "stubPlatform aliceStrings (Inl (Error ''boom'')) [] Never"
  let ?down = "(aliceWorld [''stale''])\<lparr>faults := [Some ''ECONNREFUSED'']\<rparr>"
  note t = soft_tier_failures [of ?plat "''alice''" afterFailure 0 "[aliceCookie]" stubJs alice]
  note d = soft_tier_failures [of ?plat "''alice''" ?down 0 "[aliceCookie]" stubJs aliceWithJar]
  have p: "fst (tryPassedCookies ?plat 0 ''alice'' [aliceCookie] afterFailure) = Inr True"
    by (simp add: client_defs io_defs example_defs cookieString_def rewriteDomain_def Let_def)
  have f: "fst (getClient ?plat stubJs alice afterFailure) = Inl (Error ''Failed to authenticate: boom'')"
    by (simp add: client_defs io_defs example_defs authenticationFailure_def errorMessageOf_def
        parseErrorMessage_def Let_def)
  from t [THEN conjunct2, THEN conjunct1]
  obtain b where b: "fst (tryPassedCookies ?plat 0 ''alice'' [aliceCookie] afterFailure) = Inr b"
    "b \<longrightarrow> Probe 0 True \<in> set (newEvents afterFailure
       (snd (tryPassedCookies ?plat 0 ''alice'' [aliceCookie] afterFailure)))"
    by (elim conjE exE)
  from b(1) p have "b" by simp
  with b(2) have p': "Probe 0 True \<in> set (newEvents afterFailure
       (snd (tryPassedCookies ?plat 0 ''alice'' [aliceCookie] afterFailure)))"
    by (rule mp)
  note f' = t [THEN conjunct2, THEN conjunct2, THEN conjunct2, THEN conjunct2, THEN conjunct1,
      THEN spec, THEN mp, OF f]
  note rest = d [THEN conjunct2, THEN conjunct2, THEN conjunct2, THEN conjunct2, THEN conjunct2]
  have strings: "map cookieString [aliceCookie] = aliceStrings"
    by (simp add: example_defs cookieString_def rewriteDomain_def)
  have e1: "fst (tryExistingClient ?plat ''alice'' ?down) = Inr False"
    unfolding rest [THEN conjunct1] by (simp add: example_defs)
  have pr: "fst (isLoggedIn ?plat (snd (setCookies ?plat (map cookieString [aliceCookie])
       [''stale'']))) = Inr True"
    unfolding strings by (simp add: stubPlatform_def)
  have e2: "fst (tryPassedCookies ?plat 0 ''alice'' [aliceCookie] ?down) = Inr False"
    unfolding rest [THEN conjunct2, THEN conjunct1] by (simp add: storeUp_def example_defs)
  have e3: "fst (tryInMemoryCookies ?plat 0 ''alice'' ?down) = Inr True"
    unfolding rest [THEN conjunct2, THEN conjunct2, THEN conjunct1]
    by (simp add: example_defs cookieString_def rewriteDomain_def)
  have e4: "fst (tryMongoCookies ?plat 0 ''alice'' ?down) = Inr False"
    unfolding rest [THEN conjunct2, THEN conjunct2, THEN conjunct2, THEN conjunct1]
    by (simp add: storeUp_def example_defs)
  note run = rest [THEN conjunct2, THEN conjunct2, THEN conjunct2, THEN conjunct2]
  have g1: "fst (getClient ?plat stubJs aliceWithJar ?down) = Inr (Some 1)"
    unfolding run
    by (simp add: client_defs io_defs example_defs cookieString_def rewriteDomain_def Let_def)
  have g2: "trace (snd (getClient ?plat stubJs aliceWithJar ?down))
       = [Probe 0 False, NewScraper 1, SetCookies 1 aliceStrings, Probe 1 True,
          SetCookies 1 aliceStrings, Probe 1 True]"
    unfolding run
    by (simp add: client_defs io_defs example_defs cookieString_def rewriteDomain_def Let_def)
  show ?thesis
    using p p' f f' [THEN conjunct1] f' [THEN conjunct2] e1 pr e2 e4 e3 g1 g2 by (intro conjI)
qed

section \<open>Tiers that write the Session Store\<close>

lemma tryPassedCookies_write:
  assumes "cookieColl (snd (tryPassedCookies plat c u jar w)) \<noteq> cookieColl w"
  shows "\<exists>s1 s2. c < length (scrapers w)
     \<and> setCookies plat (map cookieString jar) (scrapers w ! c) = (Inr (), s1)
     \<and> isLoggedIn plat s1 = (Inr True, s2)
     \<and> cookieColl (snd (tryPassedCookies plat c u jar w))
         = (cookieColl w)(u \<mapsto> \<lparr>doc_cookies = jar, updatedAt = clock w (ticks w)\<rparr>)"
proof -
  obtain r1 s1 where sc: "setCookies plat (map cookieString jar) (scrapers w ! c) = (r1, s1)"
    by (cases "setCookies plat (map cookieString jar) (scrapers w ! c)")
  obtain r2 s2 where pr: "isLoggedIn plat s1 = (r2, s2)"
    by (cases "isLoggedIn plat s1")
  let ?w2 = "w\<lparr>scrapers := (scrapers w)[c := s2],
      trace := trace w @ [SetCookies c (map cookieString jar), Probe c True]\<rparr>"
  obtain r3 w3 where sv: "saveCookies u jar ?w2 = (r3, w3)" by (cases "saveCookies u jar ?w2")
  have eff: "cookieColl w3 = cookieColl w
     \<or> cookieColl w3 = (cookieColl w)(u \<mapsto> \<lparr>doc_cookies = jar, updatedAt = clock w (ticks w)\<rparr>)"
    using saveCookies_effect [of u jar ?w2] sv by simp
  have "c < length (scrapers w) \<and> r1 = Inr () \<and> r2 = Inr True"
    using assms sc pr
    by (cases r1; cases r2)
       (auto simp: tryPassedCookies_def setCookiesOnClient_def probe_def invoke_def io_defs Let_def
             split: if_splits)
  moreover from this have "cookieColl (snd (tryPassedCookies plat c u jar w)) = cookieColl w3"
    using sc pr sv
    by (cases r3)
       (simp_all add: tryPassedCookies_def setCookiesOnClient_def probe_def invoke_def io_defs Let_def)
  ultimately show ?thesis using assms sc pr eff by auto
qed

lemma tryFreshLogin_ok:
  assumes "c < length (scrapers w)"
    and "login plat u p e t (scrapers w ! c) = (Inr (), s1)"
    and "isLoggedIn plat s1 = (Inr True, s2)"
    and "getCookies plat s2 = (Inr jar, s3)"
    and "storeUp 2 w"
  shows "tryFreshLogin plat c u p e t w
     = (Inr True, w\<lparr>scrapers := (scrapers w)[c := s3],
                     cookies := (cookies w)(u \<mapsto> jar),
                     cookieColl := (cookieColl w)(u \<mapsto>
                       \<lparr>doc_cookies = jar, updatedAt = clock w (ticks w)\<rparr>),
                     faults := tl (tl (faults w)),
                     ticks := Suc (ticks w),
                     trace := trace w @ [Login c u, Probe c True, GetCookies c,
                                         SessionUpsert u]\<rparr>)"
proof -
  let ?w2 = "w\<lparr>scrapers := (scrapers w)[c := s3],
      trace := trace w @ [Login c u, Probe c True, GetCookies c]\<rparr>"
  have "storeUp (Suc (Suc 0)) ?w2" using assms(5) by (simp add: storeUp_def numeral_2_eq_2)
  from saveCookies_ok [OF this, of u jar] assms(1-4)
  show ?thesis
    unfolding tryFreshLogin_def io_catch_rethrow
    by (simp add: probe_def invoke_def io_defs Let_def)
qed

lemma tryFreshLogin_write:
  assumes "cookieColl (snd (tryFreshLogin plat c u p e t w)) \<noteq> cookieColl w"
  shows "\<exists>s1 s2 jar s3. c < length (scrapers w)
     \<and> login plat u p e t (scrapers w ! c) = (Inr (), s1)
     \<and> isLoggedIn plat s1 = (Inr True, s2)
     \<and> getCookies plat s2 = (Inr jar, s3)
     \<and> cookieColl (snd (tryFreshLogin plat c u p e t w))
         = (cookieColl w)(u \<mapsto> \<lparr>doc_cookies = jar, updatedAt = clock w (ticks w)\<rparr>)"
proof -
  obtain r1 s1 where lg: "login plat u p e t (scrapers w ! c) = (r1, s1)"
    by (cases "login plat u p e t (scrapers w ! c)")
  obtain r2 s2 where pr: "isLoggedIn plat s1 = (r2, s2)"
    by (cases "isLoggedIn plat s1")
  obtain r3 s3 where gc: "getCookies plat s2 = (r3, s3)"
    by (cases "getCookies plat s2")
  have a: "c < length (scrapers w) \<and> r1 = Inr () \<and> r2 = Inr True \<and> (\<exists>jar. r3 = Inr jar)"
    using assms lg pr gc
    unfolding tryFreshLogin_def io_catch_rethrow
    by (cases r1; cases r2; cases r3)
       (auto simp: probe_def invoke_def io_defs Let_def split: if_splits)
  then obtain jar where jar: "r3 = Inr jar" by blast
  let ?w2 = "w\<lparr>scrapers := (scrapers w)[c := s3],
      trace := trace w @ [Login c u, Probe c True, GetCookies c]\<rparr>"
  obtain r4 w4 where sv: "saveCookies u jar ?w2 = (r4, w4)" by (cases "saveCookies u jar ?w2")
  have eff: "cookieColl w4 = cookieColl w
     \<or> cookieColl w4 = (cookieColl w)(u \<mapsto> \<lparr>doc_cookies = jar, updatedAt = clock w (ticks w)\<rparr>)"
    using saveCookies_effect [of u jar ?w2] sv by simp
  have "cookieColl (snd (tryFreshLogin plat c u p e t w)) = cookieColl w4"
    using a jar lg pr gc sv
    unfolding tryFreshLogin_def io_catch_rethrow
    by (cases r4) (simp_all add: probe_def invoke_def io_defs Let_def)
  then show ?thesis using assms a jar lg pr gc eff by auto
qed

lemma sameSessionsD: "keeps sameSessions m \<Longrightarrow> cookieColl (snd (m w)) = cookieColl w"
  by (simp add: keeps_def sameSessions_def)

lemma tryPassedCookies_down:
  assumes "c < length (scrapers w)"
    and "setCookies plat (map cookieString jar) (scrapers w ! c) = (Inr (), s1)"
    and "isLoggedIn plat s1 = (Inr True, s2)"
    and "\<not> storeUp 2 w"
  shows "tryPassedCookies plat c u jar w
     = (Inr False, w\<lparr>scrapers := (scrapers w)[c := s2],
                      faults := (if hd (faults w) = None then tl (tl (faults w)) else tl (faults w)),
                      ticks := (if hd (faults w) = None then Suc (ticks w) else ticks w),
                      trace := trace w @ [SetCookies c (map cookieString jar), Probe c True]\<rparr>)"
proof -
  let ?w2 = "w\<lparr>scrapers := (scrapers w)[c := s2],
      trace := trace w @ [SetCookies c (map cookieString jar), Probe c True]\<rparr>"
  have "\<not> storeUp 2 ?w2" using assms(4) by (simp add: storeUp_def)
  from saveCookies_down [OF this, of u jar] obtain e where
    "saveCookies u jar ?w2
       = (Inl e, ?w2\<lparr>faults := (if hd (faults ?w2) = None then tl (tl (faults ?w2)) else tl (faults ?w2)),
                     ticks := (if hd (faults ?w2) = None then Suc (ticks ?w2) else ticks ?w2)\<rparr>)"
    by blast
  then show ?thesis using assms(1-3)
    by (simp add: tryPassedCookies_def setCookiesOnClient_def probe_def invoke_def io_defs Let_def)
qed

text \<open>
  C2, as the code has it. Tier 1 missed, the caller passed a jar, the fresh Scraper
  accepts it and the probe answers \<open>true\<close>. When the two round trips of \<open>saveCookies\<close>
  succeed, \<open>getClient\<close> returns the fresh Scraper: the jar is upserted in the Session Store
  with the current clock reading, stored in the in-memory map, and the Scraper is
  registered; the four events listed are all that happens after tier 1, so \<open>login\<close> is
  not invoked. When one of the round trips fails, tier 2 returns \<open>false\<close>: the Session
  Store, the in-memory map and the registry are as before, and \<open>getClient\<close> is the rest of
  the cascade (in-memory cookies, persisted cookies, fresh login) run from there.
\<close>

theorem supplied_cookies_tier:
  assumes t1: "tryExistingClient plat (username cr) w = (Inr False, w1)"
    and jar: "cred_cookies cr = Some jar"
    and sc: "setCookies plat (map cookieString jar) (newScraper plat) = (Inr (), s1)"
    and pr: "isLoggedIn plat s1 = (Inr True, s2)"
  shows "(storeUp 2 w1 \<longrightarrow>
      getClient plat js cr w
        = (Inr (Some (length (scrapers w1))),
           w1\<lparr>instances := (instances w1)(username cr \<mapsto> length (scrapers w1)),
              cookies := (cookies w1)(username cr \<mapsto> jar),
              scrapers := scrapers w1 @ [s2],
              cookieColl := (cookieColl w1)(username cr \<mapsto>
                \<lparr>doc_cookies = jar, updatedAt = clock w1 (ticks w1)\<rparr>),
              faults := tl (tl (faults w1)),
              ticks := Suc (ticks w1),
              trace := trace w1 @ [NewScraper (length (scrapers w1)),
                                   SetCookies (length (scrapers w1)) (map cookieString jar),
                                   Probe (length (scrapers w1)) True,
                                   SessionUpsert (username cr)]\<rparr>))
    \<and> (\<not> storeUp 2 w1 \<longrightarrow>
       (let w3 = w1\<lparr>scrapers := scrapers w1 @ [s2],
                     faults := (if hd (faults w1) = None then tl (tl (faults w1))
                                else tl (faults w1)),
                     ticks := (if hd (faults w1) = None then Suc (ticks w1) else ticks w1),
                     trace := trace w1 @ [NewScraper (length (scrapers w1)),
                                          SetCookies (length (scrapers w1)) (map cookieString jar),
                                          Probe (length (scrapers w1)) True]\<rparr>
        in tryPassedCookies plat (length (scrapers w1)) (username cr) jar (snd (construct plat w1))
             = (Inr False, w3)
         \<and> getClient plat js cr w =
            (case tryInMemoryCookies plat (length (scrapers w1)) (username cr) w3 of (r3, w4) \<Rightarrow>
             if r3 = Inr True then saveClientAndReturn (username cr) (length (scrapers w1)) w4
             else
             (case tryMongoCookies plat (length (scrapers w1)) (username cr) w4 of (r4, w5) \<Rightarrow>
             if r4 = Inr True then saveClientAndReturn (username cr) (length (scrapers w1)) w5
             else
             (case tryFreshLogin plat (length (scrapers w1)) (username cr) (password cr) (email cr)
                     (twoFactorSecret cr) w5 of (r5, w6) \<Rightarrow>
             (case r5 of
                Inl e \<Rightarrow> (Inl (authenticationFailure js (Some e)), w6)
              | Inr fresh \<Rightarrow>
                  if fresh then saveClientAndReturn (username cr) (length (scrapers w1)) w6
                  else (Inl (authenticationFailure js None), w6)))))))"
proof (intro conjI impI)
  let ?c = "length (scrapers w1)"
  let ?w2 = "w1\<lparr>scrapers := scrapers w1 @ [newScraper plat], trace := trace w1 @ [NewScraper ?c]\<rparr>"
  have a: "?c < length (scrapers ?w2)" by simp
  have b: "setCookies plat (map cookieString jar) (scrapers ?w2 ! ?c) = (Inr (), s1)"
    using sc by simp
  {
    assume up: "storeUp 2 w1"
    have c: "storeUp 2 ?w2" using up by (simp add: storeUp_def)
    note t2 = tryPassedCookies_ok [OF a b pr c, of "username cr"]
    show "getClient plat js cr w
        = (Inr (Some (length (scrapers w1))),
           w1\<lparr>instances := (instances w1)(username cr \<mapsto> length (scrapers w1)),
              cookies := (cookies w1)(username cr \<mapsto> jar),
              scrapers := scrapers w1 @ [s2],
              cookieColl := (cookieColl w1)(username cr \<mapsto>
                \<lparr>doc_cookies = jar, updatedAt = clock w1 (ticks w1)\<rparr>),
              faults := tl (tl (faults w1)),
              ticks := Suc (ticks w1),
              trace := trace w1 @ [NewScraper (length (scrapers w1)),
                                   SetCookies (length (scrapers w1)) (map cookieString jar),
                                   Probe (length (scrapers w1)) True,
                                   SessionUpsert (username cr)]\<rparr>)"
      unfolding getClient_def Let_def io_catch_rethrow
      by (simp add: io_bind_def t1 construct_def jar t2 saveClientAndReturn_def io_modify_def
          io_return_def)
  }
  {
    assume down: "\<not> storeUp 2 w1"
    have c: "\<not> storeUp 2 ?w2" using down by (simp add: storeUp_def)
    note t2 = tryPassedCookies_down [OF a b pr c, of "username cr"]
    have con: "construct plat w1 = (Inr ?c, ?w2)" by (simp add: construct_def)
    show "let w3 = w1\<lparr>scrapers := scrapers w1 @ [s2],
                     faults := (if hd (faults w1) = None then tl (tl (faults w1))
                                else tl (faults w1)),
                     ticks := (if hd (faults w1) = None then Suc (ticks w1) else ticks w1),
                     trace := trace w1 @ [NewScraper (length (scrapers w1)),
                                          SetCookies (length (scrapers w1)) (map cookieString jar),
                                          Probe (length (scrapers w1)) True]\<rparr>
        in tryPassedCookies plat (length (scrapers w1)) (username cr) jar (snd (construct plat w1))
             = (Inr False, w3)
         \<and> getClient plat js cr w =
            (case tryInMemoryCookies plat (length (scrapers w1)) (username cr) w3 of (r3, w4) \<Rightarrow>
             if r3 = Inr True then saveClientAndReturn (username cr) (length (scrapers w1)) w4
             else
             (case tryMongoCookies plat (length (scrapers w1)) (username cr) w4 of (r4, w5) \<Rightarrow>
             if r4 = Inr True then saveClientAndReturn (username cr) (length (scrapers w1)) w5
             else
             (case tryFreshLogin plat (length (scrapers w1)) (username cr) (password cr) (email cr)
                     (twoFactorSecret cr) w5 of (r5, w6) \<Rightarrow>
             (case r5 of
                Inl e \<Rightarrow> (Inl (authenticationFailure js (Some e)), w6)
              | Inr fresh \<Rightarrow>
                  if fresh then saveClientAndReturn (username cr) (length (scrapers w1)) w6
                  else (Inl (authenticationFailure js None), w6)))))"
      unfolding Let_def getClient_tiers [of plat js cr w]
      by (simp add: t1 con jar t2)
  }
qed


theorem supplied_cookies_tier_witness:
  "tryExistingClient (stubPlatform aliceStrings (Inr ()) [] Never) (username aliceWithJar) freshWorld
     = (Inr False, freshWorld)
   \<and> cred_cookies aliceWithJar = Some [aliceCookie]
   \<and> setCookies (stubPlatform aliceStrings (Inr ()) [] Never) (map cookieString [aliceCookie])
        (newScraper (stubPlatform aliceStrings (Inr ()) [] Never)) = (Inr (), aliceStrings)
   \<and> isLoggedIn (stubPlatform aliceStrings (Inr ()) [] Never) aliceStrings = (Inr True, aliceStrings)
   \<and> storeUp 2 freshWorld
   \<and> fst (getClient (stubPlatform aliceStrings (Inr ()) [] Never) stubJs aliceWithJar freshWorld)
       = Inr (Some 0)
   \<and> trace (snd (getClient (stubPlatform aliceStrings (Inr ()) [] Never) stubJs aliceWithJar freshWorld))
       = [NewScraper 0, SetCookies 0 aliceStrings, Probe 0 True, SessionUpsert ''alice'']
   \<and> cookieColl (snd (getClient (stubPlatform aliceStrings (Inr ()) [] Never) stubJs aliceWithJar
        freshWorld)) ''alice'' = Some \<lparr>doc_cookies = [aliceCookie], updatedAt = 1000\<rparr>
   \<and> cookies (snd (getClient (stubPlatform aliceStrings (Inr ()) [] Never) stubJs aliceWithJar
        freshWorld)) ''alice'' = Some [aliceCookie]
   \<and> instances (snd (getClient (stubPlatform aliceStrings (Inr ()) [] Never) stubJs aliceWithJar
        freshWorld)) ''alice'' = Some 0
   \<and> tryExistingClient (stubPlatform aliceStrings (Inr ()) [] Never) (username aliceWithJar)
        (freshWorld\<lparr>faults := [Some ''ECONNREFUSED'']\<rparr>)
       = (Inr False, freshWorld\<lparr>faults := [Some ''ECONNREFUSED'']\<rparr>)
   \<and> \<not> storeUp 2 (freshWorld\<lparr>faults := [Some ''ECONNREFUSED'']\<rparr>)
   \<and> tryPassedCookies (stubPlatform aliceStrings (Inr ()) [] Never) 0 ''alice'' [aliceCookie]
        (snd (construct (stubPlatform aliceStrings (Inr ()) [] Never)
                (freshWorld\<lparr>faults := [Some ''ECONNREFUSED'']\<rparr>)))
       = (Inr False, freshWorld\<lparr>scrapers := [aliceStrings],
                       trace := [NewScraper 0, SetCookies 0 aliceStrings, Probe 0 True]\<rparr>)
   \<and> fst (getClient (stubPlatform aliceStrings (Inr ()) [] Never) stubJs aliceWithJar
        (freshWorld\<lparr>faults := [Some ''ECONNREFUSED'']\<rparr>)) = Inr (Some 0)
   \<and> trace (snd (getClient (stubPlatform aliceStrings (Inr ()) [] Never) stubJs aliceWithJar
        (freshWorld\<lparr>faults := [Some ''ECONNREFUSED'']\<rparr>)))
       = [NewScraper 0, SetCookies 0 aliceStrings, Probe 0 True, Login 0 ''alice'', Probe 0 True,
          GetCookies 0, SessionUpsert ''alice'']
   \<and> cookieColl (snd (getClient (stubPlatform aliceStrings (Inr ()) [] Never) stubJs aliceWithJar
        (freshWorld\<lparr>faults := [Some ''ECONNREFUSED'']\<rparr>))) ''alice''
       = Some \<lparr>doc_cookies = [], updatedAt = 1000\<rparr>"
proof -
  let ?plat = "stubPlatform aliceStrings (Inr ()) [] Never"
  let ?down = "freshWorld\<lparr>faults := [Some ''ECONNREFUSED'']\<rparr>"
  have h1: "tryExistingClient ?plat (username aliceWithJar) freshWorld = (Inr False, freshWorld)"
    by (simp add: tryExistingClient_def io_defs example_defs)
  have h2: "cred_cookies aliceWithJar = Some [aliceCookie]"
    by (simp add: aliceWithJar_def alice_def)
  have h3: "setCookies ?plat (map cookieString [aliceCookie]) (newScraper ?plat) = (Inr (), aliceStrings)"
    by (simp add: example_defs cookieString_def rewriteDomain_def)
  have h4: "isLoggedIn ?plat aliceStrings = (Inr True, aliceStrings)"
    by (simp add: stubPlatform_def)
  have h5: "storeUp 2 freshWorld"
    by (simp add: storeUp_def freshWorld_def)
  have strings: "map cookieString [aliceCookie] = aliceStrings"
    by (simp add: example_defs cookieString_def rewriteDomain_def)
  have name: "username aliceWithJar = ''alice''"
    by (simp add: aliceWithJar_def alice_def)
  note t = supplied_cookies_tier [OF h1 h2 h3 h4, of stubJs, THEN conjunct1, THEN mp, OF h5]
  have r1: "fst (getClient ?plat stubJs aliceWithJar freshWorld) = Inr (Some 0)"
    unfolding t by (simp add: freshWorld_def)
  have r2: "trace (snd (getClient ?plat stubJs aliceWithJar freshWorld))
       = [NewScraper 0, SetCookies 0 aliceStrings, Probe 0 True, SessionUpsert ''alice'']"
    unfolding t strings name by (simp add: freshWorld_def)
  have r3: "cookieColl (snd (getClient ?plat stubJs aliceWithJar freshWorld)) ''alice''
       = Some \<lparr>doc_cookies = [aliceCookie], updatedAt = 1000\<rparr>"
    unfolding t name by (simp add: freshWorld_def)
  have r4: "cookies (snd (getClient ?plat stubJs aliceWithJar freshWorld)) ''alice'' = Some [aliceCookie]"
    unfolding t name by simp
  have r5: "instances (snd (getClient ?plat stubJs aliceWithJar freshWorld)) ''alice'' = Some 0"
    unfolding t name by (simp add: freshWorld_def)
  have k1: "tryExistingClient ?plat (username aliceWithJar) ?down = (Inr False, ?down)"
    by (simp add: tryExistingClient_def io_defs example_defs)
  have k5: "\<not> storeUp 2 ?down"
    by (simp add: storeUp_def freshWorld_def)
  note d = supplied_cookies_tier [OF k1 h2 h3 h4, of stubJs, THEN conjunct2, THEN mp, OF k5,
      unfolded Let_def]
  have q1: "tryPassedCookies ?plat 0 ''alice'' [aliceCookie] (snd (construct ?plat ?down))
       = (Inr False, freshWorld\<lparr>scrapers := [aliceStrings],
                       trace := [NewScraper 0, SetCookies 0 aliceStrings, Probe 0 True]\<rparr>)"
    using d [THEN conjunct1] unfolding strings name by (simp add: freshWorld_def)
  note run = d [THEN conjunct2]
  have q2: "fst (getClient ?plat stubJs aliceWithJar ?down) = Inr (Some 0)"
    unfolding run
    by (simp add: client_defs io_defs example_defs cookieString_def rewriteDomain_def Let_def)
  have q3: "trace (snd (getClient ?plat stubJs aliceWithJar ?down))
       = [NewScraper 0, SetCookies 0 aliceStrings, Probe 0 True, Login 0 ''alice'', Probe 0 True,
          GetCookies 0, SessionUpsert ''alice'']"
    unfolding run
    by (simp add: client_defs io_defs example_defs cookieString_def rewriteDomain_def Let_def)
  have q4: "cookieColl (snd (getClient ?plat stubJs aliceWithJar ?down)) ''alice''
       = Some \<lparr>doc_cookies = [], updatedAt = 1000\<rparr>"
    unfolding run
    by (simp add: client_defs io_defs example_defs cookieString_def rewriteDomain_def Let_def)
  show ?thesis using h1 h2 h3 h4 h5 r1 r2 r3 r4 r5 k1 k5 q1 q2 q3 q4 by (intro conjI)
qed

text \<open>
  The claim as stated fails when the Session Store cannot be written: the supplied jar
  passes the probe, \<open>saveCookies\<close> throws, tier 2 reports a miss, and the cascade goes on
  to \<open>login\<close>, whose failure becomes the result.
\<close>

theorem supplied_cookies_store_down_counterexample:
  "tryExistingClient (stubPlatform aliceStrings (Inl (Error ''wrong password'')) [] Never)
       (username aliceWithJar) (freshWorld\<lparr>faults := [Some ''ECONNREFUSED'']\<rparr>)
     = (Inr False, freshWorld\<lparr>faults := [Some ''ECONNREFUSED'']\<rparr>)
   \<and> cred_cookies aliceWithJar = Some [aliceCookie]
   \<and> setCookies (stubPlatform aliceStrings (Inl (Error ''wrong password'')) [] Never)
        (map cookieString [aliceCookie])
        (newScraper (stubPlatform aliceStrings (Inl (Error ''wrong password'')) [] Never))
       = (Inr (), aliceStrings)
   \<and> isLoggedIn (stubPlatform aliceStrings (Inl (Error ''wrong password'')) [] Never) aliceStrings
       = (Inr True, aliceStrings)
   \<and> trace (snd (getClient (stubPlatform aliceStrings (Inl (Error ''wrong password'')) [] Never)
        stubJs aliceWithJar (freshWorld\<lparr>faults := [Some ''ECONNREFUSED'']\<rparr>)))
       = [NewScraper 0, SetCookies 0 aliceStrings, Probe 0 True, Login 0 ''alice'']
   \<and> fst (getClient (stubPlatform aliceStrings (Inl (Error ''wrong password'')) [] Never)
        stubJs aliceWithJar (freshWorld\<lparr>faults := [Some ''ECONNREFUSED'']\<rparr>))
       = Inl (Error ''Failed to authenticate: wrong password'')
   \<and> cookieColl (snd (getClient (stubPlatform aliceStrings (Inl (Error ''wrong password'')) [] Never)
        stubJs aliceWithJar (freshWorld\<lparr>faults := [Some ''ECONNREFUSED'']\<rparr>))) ''alice'' = None"
  by (simp add: client_defs io_defs example_defs cookieString_def rewriteDomain_def Let_def
      authenticationFailure_def errorMessageOf_def parseErrorMessage_def)

text \<open>
  C3, as the code has it. Tier 2 and tier 5 upsert the jar they validated, with the
  current clock reading, when the two round trips of \<open>saveCookies\<close> succeed; and whenever
  either of them changes the Session Store, the probe of the handle had answered \<open>true\<close>
  and the record written is that jar. Tiers 1, 3 and 4 never change the Session Store.
\<close>

theorem session_store_writes:
  "(c < length (scrapers w)
      \<and> setCookies plat (map cookieString jar) (scrapers w ! c) = (Inr (), s1)
      \<and> isLoggedIn plat s1 = (Inr True, s2) \<and> storeUp 2 w
      \<longrightarrow> cookieColl (snd (tryPassedCookies plat c u jar w))
            = (cookieColl w)(u \<mapsto> \<lparr>doc_cookies = jar, updatedAt = clock w (ticks w)\<rparr>))
   \<and> (cookieColl (snd (tryPassedCookies plat c u jar w)) \<noteq> cookieColl w
      \<longrightarrow> (\<exists>a b. c < length (scrapers w)
             \<and> setCookies plat (map cookieString jar) (scrapers w ! c) = (Inr (), a)
             \<and> isLoggedIn plat a = (Inr True, b)
             \<and> cookieColl (snd (tryPassedCookies plat c u jar w))
                 = (cookieColl w)(u \<mapsto> \<lparr>doc_cookies = jar, updatedAt = clock w (ticks w)\<rparr>)))
   \<and> (c < length (scrapers w)
      \<and> login plat u p e t (scrapers w ! c) = (Inr (), l1)
      \<and> isLoggedIn plat l1 = (Inr True, l2) \<and> getCookies plat l2 = (Inr captured, l3)
      \<and> storeUp 2 w
      \<longrightarrow> cookieColl (snd (tryFreshLogin plat c u p e t w))
            = (cookieColl w)(u \<mapsto> \<lparr>doc_cookies = captured, updatedAt = clock w (ticks w)\<rparr>))
   \<and> (cookieColl (snd (tryFreshLogin plat c u p e t w)) \<noteq> cookieColl w
      \<longrightarrow> (\<exists>a b new d. c < length (scrapers w)
             \<and> login plat u p e t (scrapers w ! c) = (Inr (), a)
             \<and> isLoggedIn plat a = (Inr True, b)
             \<and> getCookies plat b = (Inr new, d)
             \<and> cookieColl (snd (tryFreshLogin plat c u p e t w))
                 = (cookieColl w)(u \<mapsto> \<lparr>doc_cookies = new, updatedAt = clock w (ticks w)\<rparr>)))
   \<and> cookieColl (snd (tryExistingClient plat u w)) = cookieColl w
   \<and> cookieColl (snd (tryInMemoryCookies plat c u w)) = cookieColl w
   \<and> cookieColl (snd (tryMongoCookies plat c u w)) = cookieColl w"
proof (intro conjI impI)
  assume "c < length (scrapers w)
      \<and> setCookies plat (map cookieString jar) (scrapers w ! c) = (Inr (), s1)
      \<and> isLoggedIn plat s1 = (Inr True, s2) \<and> storeUp 2 w"
  then show "cookieColl (snd (tryPassedCookies plat c u jar w))
            = (cookieColl w)(u \<mapsto> \<lparr>doc_cookies = jar, updatedAt = clock w (ticks w)\<rparr>)"
    using tryPassedCookies_ok [of c w plat jar s1 s2 u] by simp
next
  assume "cookieColl (snd (tryPassedCookies plat c u jar w)) \<noteq> cookieColl w"
  then show "\<exists>a b. c < length (scrapers w)
             \<and> setCookies plat (map cookieString jar) (scrapers w ! c) = (Inr (), a)
             \<and> isLoggedIn plat a = (Inr True, b)
             \<and> cookieColl (snd (tryPassedCookies plat c u jar w))
                 = (cookieColl w)(u \<mapsto> \<lparr>doc_cookies = jar, updatedAt = clock w (ticks w)\<rparr>)"
    by (rule tryPassedCookies_write)
next
  assume "c < length (scrapers w)
      \<and> login plat u p e t (scrapers w ! c) = (Inr (), l1)
      \<and> isLoggedIn plat l1 = (Inr True, l2) \<and> getCookies plat l2 = (Inr captured, l3)
      \<and> storeUp 2 w"
  then show "cookieColl (snd (tryFreshLogin plat c u p e t w))
            = (cookieColl w)(u \<mapsto> \<lparr>doc_cookies = captured, updatedAt = clock w (ticks w)\<rparr>)"
    using tryFreshLogin_ok [of c w plat u p e t l1 l2 captured l3] by simp
next
  assume "cookieColl (snd (tryFreshLogin plat c u p e t w)) \<noteq> cookieColl w"
  then show "\<exists>a b new d. c < length (scrapers w)
             \<and> login plat u p e t (scrapers w ! c) = (Inr (), a)
             \<and> isLoggedIn plat a = (Inr True, b)
             \<and> getCookies plat b = (Inr new, d)
             \<and> cookieColl (snd (tryFreshLogin plat c u p e t w))
                 = (cookieColl w)(u \<mapsto> \<lparr>doc_cookies = new, updatedAt = clock w (ticks w)\<rparr>)"
    by (rule tryFreshLogin_write)
next
  show "cookieColl (snd (tryExistingClient plat u w)) = cookieColl w"
    by (rule sameSessionsD) (rule sameSessions_tryExistingClient)
next
  show "cookieColl (snd (tryInMemoryCookies plat c u w)) = cookieColl w"
    by (rule sameSessionsD) (rule sameSessions_tryInMemoryCookies)
next
  show "cookieColl (snd (tryMongoCookies plat c u w)) = cookieColl w"
    by (rule sameSessionsD) (rule sameSessions_tryMongoCookies)
qed
theorem session_store_writes_witness:
  "0 < length (scrapers afterFailure)
   \<and> setCookies (stubPlatform aliceStrings (Inr ()) [aliceCookie] Never)
        (map cookieString [aliceCookie]) (scrapers afterFailure ! 0) = (Inr (), aliceStrings)
   \<and> isLoggedIn (stubPlatform aliceStrings (Inr ()) [aliceCookie] Never) aliceStrings
       = (Inr True, aliceStrings)
   \<and> login (stubPlatform aliceStrings (Inr ()) [aliceCookie] Never) ''alice'' ''secret'' None None
        (scrapers afterFailure ! 0) = (Inr (), aliceStrings)
   \<and> getCookies (stubPlatform aliceStrings (Inr ()) [aliceCookie] Never) aliceStrings
       = (Inr [aliceCookie], aliceStrings)
   \<and> storeUp 2 afterFailure
   \<and> cookieColl (snd (tryPassedCookies (stubPlatform aliceStrings (Inr ()) [aliceCookie] Never) 0
        ''alice'' [aliceCookie] afterFailure)) ''alice''
       = Some \<lparr>doc_cookies = [aliceCookie], updatedAt = 1000\<rparr>
   \<and> cookieColl (snd (tryFreshLogin (stubPlatform aliceStrings (Inr ()) [aliceCookie] Never) 0
        ''alice'' ''secret'' None None afterFailure)) ''alice''
       = Some \<lparr>doc_cookies = [aliceCookie], updatedAt = 1000\<rparr>
   \<and> cookieColl (snd (tryPassedCookies (stubPlatform aliceStrings (Inr ()) [aliceCookie] Never) 0
        ''alice'' [aliceCookie] afterFailure)) \<noteq> cookieColl afterFailure
   \<and> cookieColl (snd (tryFreshLogin (stubPlatform aliceStrings (Inr ()) [aliceCookie] Never) 0
        ''alice'' ''secret'' None None afterFailure)) \<noteq> cookieColl afterFailure"
proof -
  let ?plat = "stubPlatform aliceStrings (Inr ()) [aliceCookie] Never"
  have h1: "0 < length (scrapers afterFailure)"
    by (simp add: afterFailure_def freshWorld_def)
  have h2: "setCookies ?plat (map cookieString [aliceCookie]) (scrapers afterFailure ! 0)
      = (Inr (), aliceStrings)"
    by (simp add: example_defs cookieString_def rewriteDomain_def)
  have h3: "isLoggedIn ?plat aliceStrings = (Inr True, aliceStrings)"
    by (simp add: stubPlatform_def)
  have h4: "login ?plat ''alice'' ''secret'' None None (scrapers afterFailure ! 0)
      = (Inr (), aliceStrings)"
    by (simp add: stubPlatform_def)
  have h5: "getCookies ?plat aliceStrings = (Inr [aliceCookie], aliceStrings)"
    by (simp add: stubPlatform_def)
  have h6: "storeUp 2 afterFailure"
    by (simp add: storeUp_def afterFailure_def freshWorld_def)
  have none: "cookieColl afterFailure ''alice'' = None"
    by (simp add: afterFailure_def freshWorld_def)
  have now: "clock afterFailure (ticks afterFailure) = 1000"
    by (simp add: afterFailure_def freshWorld_def)
  note t = session_store_writes [of 0 afterFailure ?plat "[aliceCookie]" aliceStrings aliceStrings
      "''alice''" "''secret''" None None aliceStrings aliceStrings "[aliceCookie]" aliceStrings]
  from t h1 h2 h3 h6 have a: "cookieColl (snd (tryPassedCookies ?plat 0 ''alice'' [aliceCookie] afterFailure))
      = (cookieColl afterFailure)(''alice'' \<mapsto>
           \<lparr>doc_cookies = [aliceCookie], updatedAt = clock afterFailure (ticks afterFailure)\<rparr>)"
    by blast
  from t h1 h4 h3 h5 h6 have b: "cookieColl (snd (tryFreshLogin ?plat 0 ''alice'' ''secret'' None None
        afterFailure))
      = (cookieColl afterFailure)(''alice'' \<mapsto>
           \<lparr>doc_cookies = [aliceCookie], updatedAt = clock afterFailure (ticks afterFailure)\<rparr>)"
    by blast
  have a1: "cookieColl (snd (tryPassedCookies ?plat 0 ''alice'' [aliceCookie] afterFailure)) ''alice''
       = Some \<lparr>doc_cookies = [aliceCookie], updatedAt = 1000\<rparr>"
    unfolding a now by simp
  have b1: "cookieColl (snd (tryFreshLogin ?plat 0 ''alice'' ''secret'' None None afterFailure)) ''alice''
       = Some \<lparr>doc_cookies = [aliceCookie], updatedAt = 1000\<rparr>"
    unfolding b now by simp
  have a2: "cookieColl (snd (tryPassedCookies ?plat 0 ''alice'' [aliceCookie] afterFailure))
       \<noteq> cookieColl afterFailure"
    using a1 none by auto
  have b2: "cookieColl (snd (tryFreshLogin ?plat 0 ''alice'' ''secret'' None None afterFailure))
       \<noteq> cookieColl afterFailure"
    using b1 none by auto
  show ?thesis using h1 h2 h3 h4 h5 h6 a1 b1 a2 b2 by (intro conjI)
qed

text \<open>
  The claim as stated fails at tier 3: the in-memory jar is applied to a fresh Scraper at
  clock reading 1000 and its probe answers \<open>true\<close>, and the Session Store is not written:
  the record keeps the timestamp 5.
\<close>

theorem in_memory_tier_does_not_write_counterexample:
  "cookies (aliceWorld [''stale'']) ''alice'' = Some [aliceCookie]
   \<and> clock (aliceWorld [''stale'']) (ticks (aliceWorld [''stale''])) = 1000
   \<and> fst (getClient (stubPlatform aliceStrings (Inr ()) [] Never) stubJs alice
            (aliceWorld [''stale''])) = Inr (Some 1)
   \<and> trace (snd (getClient (stubPlatform aliceStrings (Inr ()) [] Never) stubJs alice
            (aliceWorld [''stale''])))
       = [Probe 0 False, NewScraper 1, SetCookies 1 (map cookieString [aliceCookie]), Probe 1 True]
   \<and> cookieColl (snd (getClient (stubPlatform aliceStrings (Inr ()) [] Never) stubJs alice
            (aliceWorld [''stale'']))) ''alice''
       = Some \<lparr>doc_cookies = [aliceCookie], updatedAt = 5\<rparr>"
  by (simp add: client_defs io_defs example_defs cookieString_def rewriteDomain_def Let_def)

section \<open>The failure reason\<close>






section \<open>Search: cache bypass, timeout and the missing import\<close>

lemma setCachedData_total: "fst (setCachedData k ty payload d w) = Inr ()"
proof -
  have "\<And>m v. fst (io_catch m (\<lambda>error. io_return ()) v) = Inr ()"
    by (simp add: io_catch_def io_return_def split: prod.splits sum.splits)
  then show ?thesis
    by (simp add: setCachedData_def Let_def io_bind_def io_modify_def)
qed

lemma readSearchCache_total: "\<exists>cached. fst (readSearchCache uc cursor k w) = Inr cached"
  by (simp add: readSearchCache_def getCachedData_result io_return_def)

lemma writeSearchCache_total: "fst (writeSearchCache uc cursor k result w) = Inr ()"
  by (simp add: writeSearchCache_def setCachedData_total io_return_def)

lemma quietly_mono: "(\<And>e. P e \<Longrightarrow> Q e) \<Longrightarrow> quietly P w w' \<Longrightarrow> quietly Q w w'"
  by (auto simp: quietly_alt list_all_iff)

lemma quietlyD:
  "keeps (quietly P) m \<Longrightarrow> m w = (r, w') \<Longrightarrow> quietly P w w'"
  by (rule keepsD)

lemma quietly_transD: "quietly P w w1 \<Longrightarrow> quietly P w1 w2 \<Longrightarrow> quietly P w w2"
  using quietly_trans [of P] by (auto elim: transpE)

lemma noSet_getCachedData: "keeps (quietly (\<lambda>e. \<not> isCacheSet e)) (getCachedData k ty d)"
  unfolding getCachedData_def findCache_def Let_def
  by (intro quietly_intros quietly_initMongoClient; simp add: quietly_alt)

lemma noSet_readSearchCache:
  "keeps (quietly (\<lambda>e. \<not> isCacheSet e)) (readSearchCache uc cursor k)"
  unfolding readSearchCache_def by (intro quietly_intros noSet_getCachedData)

lemma quiet_raceSearch:
  "keeps (quietly (\<lambda>e. \<not> cacheEvent e)) (raceSearch plat h q n m cursor)"
  unfolding raceSearch_def by (intro quietly_intros; simp)

lemma quiet_searchTweets:
  assumes "\<not> (useCacheOf flag \<and> \<not> present cursor)"
  shows "keeps (quietly (\<lambda>e. \<not> cacheEvent e)) (searchTweets plat js cr q n mode cursor flag)"
proof -
  have rd: "\<And>k. readSearchCache (useCacheOf flag) cursor k = io_return None"
    using assms by (auto simp: readSearchCache_def)
  have wr: "\<And>k result. writeSearchCache (useCacheOf flag) cursor k result = io_return ()"
    using assms by (auto simp: writeSearchCache_def)
  show ?thesis
    unfolding searchTweets_def Let_def rd wr
    by (intro quietly_intros quiet_getClient quiet_raceSearch)
qed

lemma searchTweets_cascade:
  assumes rd: "readSearchCache (useCacheOf flag) cursor (searchCacheKey q m n) w = (Inr cached, w1)"
    and gc: "getClient plat js cr w1 = (rc, w2)"
    and rs: "raceSearch plat (case rc of Inl _ \<Rightarrow> None | Inr client \<Rightarrow> client) q n m cursor w2
               = (rr, w3)"
    and wr: "writeSearchCache (useCacheOf flag) cursor (searchCacheKey q m n)
               (case rr of Inl _ \<Rightarrow> None | Inr result \<Rightarrow> result) w3 = (Inr (), w4)"
  shows "searchTweets plat js cr q n (Some m) cursor flag w =
     (case cached of
        Some hit \<Rightarrow> (Inr (Payload hit), w1)
      | None \<Rightarrow>
          (case rc of
             Inl e \<Rightarrow> (Inr (Failure 500 (''Failed to search tweets: '' @ message e)), w2)
           | Inr client \<Rightarrow>
               (case rr of
                  Inl e \<Rightarrow> (Inr (Failure 500 (''Failed to search tweets: '' @ message e)), w3)
                | Inr result \<Rightarrow>
                    (Inr (Payload (case result of None \<Rightarrow> emptyResult | Some r \<Rightarrow> r)), w4))))"
  using rd gc rs wr
  by (cases cached; cases rc; cases rr)
     (simp_all add: searchTweets_def Let_def io_bind_def io_catch_def io_return_def)

lemma no_new: "quietly P w w' \<Longrightarrow> e \<in> set (newEvents w w') \<Longrightarrow> P e"
  by (auto simp: quietly_def list_all_iff)

lemma searchTweets_writes:
  assumes ev: "CacheSet k \<in> set (newEvents w (snd (searchTweets plat js cr q n mode cursor flag w)))"
  shows "\<not> present cursor \<and> useCacheOf flag
     \<and> (\<exists>r. fst (searchTweets plat js cr q n mode cursor flag w) = Inr (Payload r)
            \<and> hasTweets (Some r))"
proof -
  have on: "useCacheOf flag \<and> \<not> present cursor"
  proof (rule ccontr)
    assume "\<not> (useCacheOf flag \<and> \<not> present cursor)"
    then have "quietly (\<lambda>e. \<not> cacheEvent e) w (snd (searchTweets plat js cr q n mode cursor flag w))"
      using quiet_searchTweets [of flag cursor plat js cr q n mode] by (simp add: keeps_def)
    from no_new [OF this ev] show False by simp
  qed
  obtain m where mode: "mode = Some m"
    using ev by (cases mode) (auto simp: searchTweets_def io_throw_def newEvents_def)
  let ?key = "searchCacheKey q m n"
  obtain cached w1 where rd: "readSearchCache (useCacheOf flag) cursor ?key w = (Inr cached, w1)"
    using readSearchCache_total [of "useCacheOf flag" cursor ?key w]
    by (cases "readSearchCache (useCacheOf flag) cursor ?key w") auto
  obtain rc w2 where gc: "getClient plat js cr w1 = (rc, w2)"
    by (cases "getClient plat js cr w1")
  let ?client = "case rc of Inl _ \<Rightarrow> None | Inr client \<Rightarrow> client"
  obtain rr w3 where rs: "raceSearch plat ?client q n m cursor w2 = (rr, w3)"
    by (cases "raceSearch plat ?client q n m cursor w2")
  let ?result = "case rr of Inl _ \<Rightarrow> None | Inr result \<Rightarrow> result"
  obtain w4 where wr: "writeSearchCache (useCacheOf flag) cursor ?key ?result w3 = (Inr (), w4)"
    using writeSearchCache_total [of "useCacheOf flag" cursor ?key ?result w3]
    by (cases "writeSearchCache (useCacheOf flag) cursor ?key ?result w3") auto
  note run = searchTweets_cascade [OF rd gc rs wr]
  have q1: "quietly (\<lambda>e. \<not> isCacheSet e) w w1"
    using noSet_readSearchCache rd by (rule quietlyD)
  have "quietly (\<lambda>e. \<not> cacheEvent e) w1 w2"
    using quiet_getClient gc by (rule quietlyD)
  then have q2: "quietly (\<lambda>e. \<not> isCacheSet e) w1 w2"
    by (rule quietly_mono [rotated]) (case_tac e; simp)
  have "quietly (\<lambda>e. \<not> cacheEvent e) w2 w3"
    using quiet_raceSearch rs by (rule quietlyD)
  then have q3: "quietly (\<lambda>e. \<not> isCacheSet e) w2 w3"
    by (rule quietly_mono [rotated]) (case_tac e; simp)
  have q12: "quietly (\<lambda>e. \<not> isCacheSet e) w w2" using q1 q2 by (rule quietly_transD)
  have q13: "quietly (\<lambda>e. \<not> isCacheSet e) w w3" using q12 q3 by (rule quietly_transD)
  have at1: "snd (searchTweets plat js cr q n mode cursor flag w) = w1 \<Longrightarrow> False"
    using ev no_new [OF q1, of "CacheSet k"] by simp
  have at2: "snd (searchTweets plat js cr q n mode cursor flag w) = w2 \<Longrightarrow> False"
    using ev no_new [OF q12, of "CacheSet k"] by simp
  have at3: "snd (searchTweets plat js cr q n mode cursor flag w) = w3 \<Longrightarrow> False"
    using ev no_new [OF q13, of "CacheSet k"] by simp
  have idle: "\<not> hasTweets ?result \<Longrightarrow> w4 = w3"
    using wr by (simp add: writeSearchCache_def io_return_def)
  show ?thesis
  proof (cases cached)
    case (Some hit)
    then show ?thesis using at1 by (simp add: mode run)
  next
    case None
    show ?thesis
    proof (cases rc)
      case (Inl e)
      then show ?thesis using None at2 by (simp add: mode run)
    next
      case client: (Inr client)
      show ?thesis
      proof (cases rr)
        case (Inl e)
        then show ?thesis using None client at3 by (simp add: mode run)
      next
        case (Inr result)
        show ?thesis
        proof (cases "hasTweets result")
          case False
          then have "w4 = w3" using idle Inr by simp
          then show ?thesis using None client Inr at3 by (simp add: mode run)
        next
          case True
          then obtain r where "result = Some r" by (cases result) (auto simp: hasTweets_def)
          then show ?thesis using None client Inr True on by (simp add: mode run)
        qed
      qed
    qed
  qed
qed

lemma searchTweets_reads:
  assumes "CacheGet k \<in> set (newEvents w (snd (searchTweets plat js cr q n mode cursor flag w)))"
  shows "\<not> present cursor \<and> useCacheOf flag"
proof (rule ccontr)
  assume "\<not> (\<not> present cursor \<and> useCacheOf flag)"
  then have "\<not> (useCacheOf flag \<and> \<not> present cursor)" by blast
  then have "quietly (\<lambda>e. \<not> cacheEvent e) w (snd (searchTweets plat js cr q n mode cursor flag w))"
    using quiet_searchTweets [of flag cursor plat js cr q n mode] by (simp add: keeps_def)
  from no_new [OF this assms] show False by simp
qed

lemma searchTweets_paginated:
  assumes "present cursor"
  shows "cacheColl (snd (searchTweets plat js cr q n mode cursor flag w)) = cacheColl w
     \<and> list_all (\<lambda>e. \<not> cacheEvent e)
          (newEvents w (snd (searchTweets plat js cr q n mode cursor flag w)))"
proof -
  have "\<not> (useCacheOf flag \<and> \<not> present cursor)" using assms by simp
  then have "quietly (\<lambda>e. \<not> cacheEvent e) w (snd (searchTweets plat js cr q n mode cursor flag w))"
    using quiet_searchTweets [of flag cursor plat js cr q n mode] by (simp add: keeps_def)
  then show ?thesis by (simp add: quietly_def)
qed
text \<open>
  C8. A search with a cursor (a non-empty string) leaves the Cache Store as it was and
  enters neither \<open>getCachedData\<close> nor \<open>setCachedData\<close>, whatever \<open>useCache\<close> is. In any
  search, the cache is read only when the cursor is absent and \<open>useCache\<close> is set, and it
  is written only when, moreover, the call returns a result whose tweet list is not
  empty.
\<close>

theorem paginated_search_bypasses_cache:
  "(present cursor \<longrightarrow>
      cacheColl (snd (searchTweets plat js cr q n mode cursor flag w)) = cacheColl w
      \<and> list_all (\<lambda>e. \<not> cacheEvent e)
           (newEvents w (snd (searchTweets plat js cr q n mode cursor flag w))))
   \<and> (\<forall>k. CacheGet k \<in> set (newEvents w (snd (searchTweets plat js cr q n mode cursor flag w)))
        \<longrightarrow> \<not> present cursor \<and> useCacheOf flag)
   \<and> (\<forall>k. CacheSet k \<in> set (newEvents w (snd (searchTweets plat js cr q n mode cursor flag w)))
        \<longrightarrow> \<not> present cursor \<and> useCacheOf flag
            \<and> (\<exists>r. fst (searchTweets plat js cr q n mode cursor flag w) = Inr (Payload r)
                   \<and> hasTweets (Some r)))"
proof (intro conjI allI impI)
  assume "present cursor"
  then show "cacheColl (snd (searchTweets plat js cr q n mode cursor flag w)) = cacheColl w"
    by (rule searchTweets_paginated [THEN conjunct1])
next
  assume "present cursor"
  then show "list_all (\<lambda>e. \<not> cacheEvent e)
           (newEvents w (snd (searchTweets plat js cr q n mode cursor flag w)))"
    by (rule searchTweets_paginated [THEN conjunct2])
next
  fix k assume "CacheGet k \<in> set (newEvents w (snd (searchTweets plat js cr q n mode cursor flag w)))"
  then show "\<not> present cursor" and "useCacheOf flag"
    using searchTweets_reads by blast+
next
  fix k assume ev: "CacheSet k \<in> set (newEvents w (snd (searchTweets plat js cr q n mode cursor flag w)))"
  from searchTweets_writes [OF ev]
  show "\<not> present cursor" and "useCacheOf flag"
    and "\<exists>r. fst (searchTweets plat js cr q n mode cursor flag w) = Inr (Payload r)
            \<and> hasTweets (Some r)"
    by blast+
qed

lemmas search_defs = searchTweets_def readSearchCache_def writeSearchCache_def raceSearch_def
  race_def hasTweets_def useCacheOf_def searchCacheKey_def present_def emptyResult_def
  THIRTY_MINUTES_MS_def SEARCH_TIMEOUT_MS_def

theorem paginated_search_bypasses_cache_witness:
  "present (Some ''scroll:1'')
   \<and> fst (searchTweets (stubPlatform aliceStrings (Inr ()) [aliceCookie]
             (Settles 200 (Inr (Some sampleResult)))) stubJs alice ''cats'' 10 (Some 1)
             (Some ''scroll:1'') (Some True) freshWorld) = Inr (Payload sampleResult)
   \<and> cacheColl (snd (searchTweets (stubPlatform aliceStrings (Inr ()) [aliceCookie]
             (Settles 200 (Inr (Some sampleResult)))) stubJs alice ''cats'' 10 (Some 1)
             (Some ''scroll:1'') (Some True) freshWorld)) = cacheColl freshWorld
   \<and> list_all (\<lambda>e. \<not> cacheEvent e) (newEvents freshWorld
        (snd (searchTweets (stubPlatform aliceStrings (Inr ()) [aliceCookie]
             (Settles 200 (Inr (Some sampleResult)))) stubJs alice ''cats'' 10 (Some 1)
             (Some ''scroll:1'') (Some True) freshWorld)))
   \<and> CacheSet ''search_cats_1_10'' \<in> set (newEvents freshWorld
        (snd (searchTweets (stubPlatform aliceStrings (Inr ()) [aliceCookie]
             (Settles 200 (Inr (Some sampleResult)))) stubJs alice ''cats'' 10 (Some 1)
             None None freshWorld)))
   \<and> \<not> present None \<and> useCacheOf None
   \<and> (\<exists>r. fst (searchTweets (stubPlatform aliceStrings (Inr ()) [aliceCookie]
             (Settles 200 (Inr (Some sampleResult)))) stubJs alice ''cats'' 10 (Some 1)
             None None freshWorld) = Inr (Payload r) \<and> hasTweets (Some r))"
proof -
  let ?plat = "stubPlatform aliceStrings (Inr ()) [aliceCookie] (Settles 200 (Inr (Some sampleResult)))"
  have h: "present (Some ''scroll:1'')"
    by (simp add: present_def)
  have r: "fst (searchTweets ?plat stubJs alice ''cats'' 10 (Some 1) (Some ''scroll:1'') (Some True)
             freshWorld) = Inr (Payload sampleResult)"
    by (simp add: search_defs client_defs io_defs example_defs Let_def)
  note t = paginated_search_bypasses_cache [of "Some ''scroll:1''" ?plat stubJs alice "''cats''" 10
      "Some 1" "Some True" freshWorld]
  from t h have a: "cacheColl (snd (searchTweets ?plat stubJs alice ''cats'' 10 (Some 1)
        (Some ''scroll:1'') (Some True) freshWorld)) = cacheColl freshWorld
     \<and> list_all (\<lambda>e. \<not> cacheEvent e) (newEvents freshWorld
          (snd (searchTweets ?plat stubJs alice ''cats'' 10 (Some 1) (Some ''scroll:1'') (Some True)
             freshWorld)))"
    by blast
  have ev: "CacheSet ''search_cats_1_10'' \<in> set (newEvents freshWorld
        (snd (searchTweets ?plat stubJs alice ''cats'' 10 (Some 1) None None freshWorld)))"
    by (simp add: search_defs cache_defs client_defs io_defs example_defs Let_def newEvents_def)
  note u = paginated_search_bypasses_cache [of None ?plat stubJs alice "''cats''" 10
      "Some 1" None freshWorld]
  from u ev have b: "\<not> present None \<and> useCacheOf None
     \<and> (\<exists>r. fst (searchTweets ?plat stubJs alice ''cats'' 10 (Some 1) None None freshWorld)
              = Inr (Payload r) \<and> hasTweets (Some r))"
    by blast
  show ?thesis using h r a ev b by (intro conjI) (erule conjunct1 conjunct2 | assumption | blast)+
qed








lemma searchTweets_explicit_mode_returns:
  "\<exists>reply. fst (searchTweets plat js cr q n (Some m) cursor flag w) = Inr reply"
  by (simp add: searchTweets_def Let_def io_catch_def io_return_def split: prod.splits sum.splits)

text \<open>
  C10. \<open>searchTweets\<close> called without a search mode does not return an object with
  status 500: the default value of the parameter refers to \<open>SearchMode\<close>, which the module
  does not import, and the ReferenceError reaches the caller.
\<close>

theorem searchTweets_default_mode_throws:
  "searchTweets plat js cr q n None cursor flag w
     = (Inl (ReferenceError ''SearchMode is not defined''), w)"
  by (simp add: searchTweets_def io_throw_def)

end
